theory Spec2Isabelle
  imports Complex_Main "HOL-Library.Word"
begin

section \<open>EntityTreeRenderer: zone layers, containment and enter/leave events\<close>

text \<open>
  A shallow embedding of the parts of \<^verbatim>\<open>EntityTreeRenderer.cpp\<close> that resolve which
  entities contain the avatar, keep the layered zone stack and fire enter/leave events.
  Member names drop the leading underscore of the C++ (\<^verbatim>\<open>_avatarPosition\<close> is
  \<open>avatarPosition\<close>).
\<close>

subsection \<open>Single-precision arithmetic\<close>

text \<open>
  A finite C++ \<^verbatim>\<open>float\<close> (IEEE 754 binary32) is read as the real number it denotes, and
  every arithmetic operation on floats gives the exact result rounded to the nearest
  binary32 value, ties to the even significand. A binary32 value \<open>x\<close> with
  \<open>2 powi e \<le> |x| < 2 powi (e + 1)\<close> is a multiple of \<open>2 powi (e - 23)\<close> (24 significant
  bits), and the subnormal values share the spacing of the lowest such range,
  \<open>e = -126\<close>. Infinities and NaN have no counterpart here: the positions and thresholds
  of the model are finite, and a result of magnitude \<open>2 powi 128\<close> or more, which the
  machine turns into an infinity, is not modelled.
\<close>

definition round_to_even :: "real \<Rightarrow> int" where
  "round_to_even q =
     (let n = \<lfloor>q\<rfloor>; r = q - of_int n
      in if r < 1 / 2 then n else if 1 / 2 < r then n + 1 else if even n then n else n + 1)"

definition float_exponent :: "real \<Rightarrow> int" where
  "float_exponent x = max \<lfloor>log 2 \<bar>x\<bar>\<rfloor> (- 126)"

definition round32 :: "real \<Rightarrow> real" where
  "round32 x =
     (if x = 0 then 0
      else of_int (round_to_even (x / 2 powi (float_exponent x - 23)))
             * 2 powi (float_exponent x - 23))"

subsection \<open>Vectors\<close>

text \<open>
  \<^verbatim>\<open>glm::vec3\<close> has three \<^verbatim>\<open>float\<close> components; sum and difference are taken
  component by component, and the length is the square root of \<^verbatim>\<open>x*x + y*y + z*z\<close>,
  each operation rounded to binary32 on its own.
\<close>

datatype vec3 = Vec3 real real real

fun vec3_add :: "vec3 \<Rightarrow> vec3 \<Rightarrow> vec3" where
  "vec3_add (Vec3 a b c) (Vec3 d e f) =
     Vec3 (round32 (a + d)) (round32 (b + e)) (round32 (c + f))"

fun vec3_sub :: "vec3 \<Rightarrow> vec3 \<Rightarrow> vec3" where
  "vec3_sub (Vec3 a b c) (Vec3 d e f) =
     Vec3 (round32 (a - d)) (round32 (b - e)) (round32 (c - f))"

fun vec3_length :: "vec3 \<Rightarrow> real" where
  "vec3_length (Vec3 a b c) =
     round32 (sqrt (round32 (round32 (round32 (a * a) + round32 (b * b)) + round32 (c * c))))"

text \<open>\<^verbatim>\<open>glm::vec3(s)\<close>: the same scalar in every component.\<close>

definition vec3_splat :: "real \<Rightarrow> vec3" where
  "vec3_splat s = Vec3 s s s"

text \<open>\<^verbatim>\<open>glm::distance(p0, p1)\<close> is \<^verbatim>\<open>length(p1 - p0)\<close>.\<close>

definition distance :: "vec3 \<Rightarrow> vec3 \<Rightarrow> real" where
  "distance p0 p1 = vec3_length (vec3_sub p1 p0)"

subsection \<open>Entities\<close>

type_synonym EntityItemID = nat

text \<open>The entity types registered by the constructor of the renderer.\<close>

datatype EntityType =
  Model | Light | Text | Web | ParticleEffect | Zone | Line | PolyVox | PolyLine
  | Shape | Box | Sphere

text \<open>
  What the renderer reads of an entity, one field for each getter it calls. The exact
  containment test \<^verbatim>\<open>entity->contains(point)\<close> is a virtual method of the entity, here a
  field of function type.
\<close>

record EntityItem =
  getEntityItemID :: EntityItemID
  getType :: EntityType
  getScript :: string
  getVisible :: bool
  entity_contains :: "vec3 \<Rightarrow> bool"
  getRenderItemID :: nat
  getVolumeEstimate :: real
  getRenderableInterface :: bool

subsection \<open>Observable effects\<close>

text \<open>
  Signals emitted, script methods called, and calls into the tree, the scene and the
  script engine, in the order in which the code performs them.
\<close>

datatype transaction_op =
  ResetSelection string "nat list"
  | RemoveFromScene EntityItemID

datatype event =
  FindEntities vec3 real
  | LayeredZones_apply_called
  | EnqueueTransaction "transaction_op list"
  | Warning string
  | Emit_leaveEntity EntityItemID
  | Emit_enterEntity EntityItemID
  | CallEntityScriptMethod EntityItemID string
  | DisconnectNonEssentialSignals
  | UnloadAllEntityScripts
  | StopScriptEngine
  | RegisterScriptEngine int
  | RunInThread int
  | SetEntitiesScriptEngine int
  | OctreeProcessor_clear

text \<open>Undefined behaviour of the C++ is a value of the model.\<close>

datatype fault =
  NullPointerDereference
  | PastTheEndDereference
  | InvalidIterator

subsection \<open>LayeredZone and LayeredZones\<close>

record LayeredZone =
  lz_zone :: EntityItem
  lz_id :: EntityItemID
  lz_volume :: real

text \<open>
  Modelled from the spec: the class \<^verbatim>\<open>LayeredZone\<close> (its constructor from a zone entity
  and its comparison operators) is declared in \<^verbatim>\<open>EntityTreeRenderer.h\<close>, which is not
  among the sources. The spec: a zone layer is "a value derived from a zone entity,
  \<open>{id, volume, zoneEntityRef}\<close>", with a "total order: primarily by \<open>volume\<close>
  ascending, secondarily by \<open>id\<close>", and \<open>contains\<close> compares layers "by id/volume".
\<close>

definition LayeredZone_of :: "EntityItem \<Rightarrow> LayeredZone" where
  "LayeredZone_of z =
     \<lparr>lz_zone = z, lz_id = getEntityItemID z, lz_volume = getVolumeEstimate z\<rparr>"

definition LayeredZone_less :: "LayeredZone \<Rightarrow> LayeredZone \<Rightarrow> bool" where
  "LayeredZone_less l r \<longleftrightarrow>
     lz_volume l < lz_volume r \<or> (lz_volume l = lz_volume r \<and> lz_id l < lz_id r)"

definition LayeredZone_eq :: "LayeredZone \<Rightarrow> LayeredZone \<Rightarrow> bool" where
  "LayeredZone_eq l r \<longleftrightarrow> lz_id l = lz_id r \<and> lz_volume l = lz_volume r"

text \<open>
  An iterator of \<^verbatim>\<open>std::set<LayeredZone>\<close> designates a node, which holds one layer and
  stays where it is while other nodes come and go, or it is the past-the-end iterator of
  one particular container. Containers are told apart by the address of the object.
\<close>

datatype iterator = At LayeredZone | EndOf nat

text \<open>
  \<^verbatim>\<open>LayeredZones\<close> derives from \<^verbatim>\<open>std::set<LayeredZone>\<close>: \<open>elems\<close> is the base
  object, the layers in ascending order; \<open>zmap\<close> is the member \<^verbatim>\<open>_map\<close>.
\<close>

record LayeredZones =
  self :: nat
  elems :: "LayeredZone list"
  zmap :: "EntityItemID \<rightharpoonup> iterator"
  skyboxLayer :: iterator

definition set_end :: "LayeredZones \<Rightarrow> iterator" where
  "set_end s = EndOf (self s)"

text \<open>
  \<^verbatim>\<open>std::set::insert\<close> on the ordered list: the node the returned iterator designates
  and whether the value was inserted. Two values are equivalent when neither is less
  than the other; then the node already there is returned.
\<close>

fun std_set_insert :: "LayeredZone \<Rightarrow> LayeredZone list \<Rightarrow> LayeredZone list \<times> LayeredZone \<times> bool" where
  "std_set_insert x [] = ([x], x, True)"
| "std_set_insert x (y # ys) =
     (if LayeredZone_less x y then (x # y # ys, x, True)
      else if LayeredZone_less y x then
        (case std_set_insert x ys of (zs, n, b) \<Rightarrow> (y # zs, n, b))
      else (y # ys, y, False))"

text \<open>\<^verbatim>\<open>std::map::emplace\<close> keeps the entry of a key that is already there.\<close>

definition map_emplace :: "'k \<Rightarrow> 'v \<Rightarrow> ('k \<rightharpoonup> 'v) \<Rightarrow> ('k \<rightharpoonup> 'v)" where
  "map_emplace k v m = (if m k = None then m(k \<mapsto> v) else m)"

text \<open>Reading through an iterator: only a node of this container can be read.\<close>

definition deref :: "LayeredZones \<Rightarrow> iterator \<Rightarrow> fault + LayeredZone" where
  "deref s it =
     (case it of
        At n \<Rightarrow> if n \<in> set (elems s) then Inr n else Inl InvalidIterator
      | EndOf a \<Rightarrow> if a = self s then Inl PastTheEndDereference else Inl InvalidIterator)"

text \<open>
  The move constructor: the new object at address \<open>this\<close>, and what is left of \<open>other\<close>.
  Before the body runs the base \<^verbatim>\<open>std::set\<close> and \<^verbatim>\<open>_map\<close> of the new object are empty;
  the body then swaps the sets, swaps the maps, copies the marker and, when the marker
  was the end of \<open>other\<close>, replaces it by the end of the new object.
\<close>

definition LayeredZones_move :: "nat \<Rightarrow> LayeredZones \<Rightarrow> LayeredZones \<times> LayeredZones" where
  "LayeredZones_move this other =
     (let isSkyboxLayerValid = (skyboxLayer other \<noteq> set_end other);
          new0 = \<lparr>self = this, elems = [], zmap = Map.empty, skyboxLayer = EndOf this\<rparr>;
          new1 = new0\<lparr>elems := elems other\<rparr>;
          other1 = other\<lparr>elems := elems new0\<rparr>;
          new2 = new1\<lparr>zmap := zmap other1\<rparr>;
          other2 = other1\<lparr>zmap := zmap new1\<rparr>;
          new3 = new2\<lparr>skyboxLayer := skyboxLayer other2\<rparr>;
          new4 = (if \<not> isSkyboxLayerValid then new3\<lparr>skyboxLayer := set_end new3\<rparr> else new3)
      in (new4, other2))"

definition LayeredZones_clear :: "LayeredZones \<Rightarrow> LayeredZones" where
  "LayeredZones_clear s = s\<lparr>elems := [], zmap := Map.empty, skyboxLayer := set_end s\<rparr>"

definition LayeredZones_insert :: "LayeredZone \<Rightarrow> LayeredZones \<Rightarrow> (iterator \<times> bool) \<times> LayeredZones" where
  "LayeredZones_insert layer s =
     (case std_set_insert layer (elems s) of
        (zs, n, success) \<Rightarrow>
          (let s1 = s\<lparr>elems := zs\<rparr>;
               s2 = (if success then s1\<lparr>zmap := map_emplace (lz_id n) (At n) (zmap s1)\<rparr> else s1)
           in ((At n, success), s2)))"

text \<open>\<^verbatim>\<open>apply()\<close> only asserts; the call itself is what is observed.\<close>

definition LayeredZones_apply :: "LayeredZones \<Rightarrow> event list" where
  "LayeredZones_apply s = [LayeredZones_apply_called]"

text \<open>The last step of \<^verbatim>\<open>update\<close>: (re)insert this zone's layer if necessary.\<close>

definition reinsert :: "bool \<Rightarrow> LayeredZone \<Rightarrow> iterator \<Rightarrow> LayeredZones \<Rightarrow> LayeredZones" where
  "reinsert isVisible zoneLayer layer s =
     (if layer = set_end s \<and> isVisible then
        (case LayeredZones_insert zoneLayer s of
           ((layer', _), s') \<Rightarrow>
             (case layer' of
                At n \<Rightarrow> s'\<lparr>zmap := map_emplace (lz_id n) layer' (zmap s')\<rparr>
              | EndOf _ \<Rightarrow> s'))
      else s)"

definition LayeredZones_update :: "EntityItem \<Rightarrow> LayeredZones \<Rightarrow> fault + (event list \<times> LayeredZones)" where
  "LayeredZones_update zone s =
     (let isVisible = getVisible zone in
      if elems s = [] \<and> isVisible then
        (case LayeredZones_insert (LayeredZone_of zone) s of
           (_, s') \<Rightarrow> Inr (LayeredZones_apply s', s'))
      else
        (let zoneLayer = LayeredZone_of zone in
         case zmap s (lz_id zoneLayer) of
           None \<Rightarrow> Inr ([], reinsert isVisible zoneLayer (set_end s) s)
         | Some layer \<Rightarrow>
             (case deref s layer of
                Inl e \<Rightarrow> Inl e
              | Inr n \<Rightarrow>
                  if lz_volume zoneLayer \<noteq> lz_volume n \<or> \<not> isVisible then
                    Inr ([], reinsert isVisible zoneLayer (set_end s)
                               (s\<lparr>elems := remove1 n (elems s),
                                  zmap := (zmap s)(lz_id zoneLayer := None)\<rparr>))
                  else Inr ([], reinsert isVisible zoneLayer layer s))))"

text \<open>
  The range \<^verbatim>\<open>[other.begin(), it)\<close>: walking from \<^verbatim>\<open>begin()\<close> reaches \<open>it\<close> only when
  \<open>it\<close> is a node of \<open>other\<close> or its own past-the-end iterator.
\<close>

definition range_upto :: "LayeredZones \<Rightarrow> iterator \<Rightarrow> fault + LayeredZone list" where
  "range_upto other it =
     (case it of
        At n \<Rightarrow> if n \<in> set (elems other) then Inr (takeWhile (\<lambda>e. e \<noteq> n) (elems other))
                else Inl InvalidIterator
      | EndOf a \<Rightarrow> if a = self other then Inr (elems other) else Inl InvalidIterator)"

text \<open>
  The three-iterator \<^verbatim>\<open>std::equal(first1, last1, first2)\<close>: it reads the second
  sequence as far as the first one goes, whatever the length of the second.
\<close>

fun std_equal :: "LayeredZone list \<Rightarrow> LayeredZone list \<Rightarrow> fault + bool" where
  "std_equal [] ys = Inr True"
| "std_equal (x # xs) [] = Inl PastTheEndDereference"
| "std_equal (x # xs) (y # ys) = (if \<not> LayeredZone_eq x y then Inr False else std_equal xs ys)"

text \<open>\<^verbatim>\<open>std::next(begin(), n)\<close>\<close>

definition std_next :: "LayeredZones \<Rightarrow> nat \<Rightarrow> fault + iterator" where
  "std_next s n =
     (if n < length (elems s) then Inr (At (elems s ! n))
      else if n = length (elems s) then Inr (set_end s)
      else Inl InvalidIterator)"

definition LayeredZones_contains :: "LayeredZones \<Rightarrow> LayeredZones \<Rightarrow> fault + (bool \<times> LayeredZones)" where
  "LayeredZones_contains s other =
     (case range_upto other (skyboxLayer other) of
        Inl e \<Rightarrow> Inl e
      | Inr pre \<Rightarrow>
          (case std_equal pre (elems s) of
             Inl e \<Rightarrow> Inl e
           | Inr result \<Rightarrow>
               if result then
                 (case std_next s (length pre) of
                    Inl e \<Rightarrow> Inl e
                  | Inr it \<Rightarrow> Inr (True, s\<lparr>skyboxLayer := it\<rparr>))
               else Inr (False, s)))"

subsection \<open>The renderer\<close>

text \<open>
  The tree and the view state are collaborators outside the renderer; the renderer calls
  \<^verbatim>\<open>findEntities\<close> and \<^verbatim>\<open>findEntityByEntityItemID\<close> on the first and
  \<^verbatim>\<open>getAvatarPosition\<close> and \<^verbatim>\<open>getMain3DScene\<close> (null or not) on the second.
\<close>

record EntityTree =
  findEntities :: "vec3 \<Rightarrow> real \<Rightarrow> EntityItem list"
  findEntityByEntityItemID :: "EntityItemID \<Rightarrow> EntityItem option"

record ViewState =
  getAvatarPosition :: vec3
  getMain3DScene :: bool

text \<open>
  The constants are declared in headers that are not among the sources; they are
  parameters of the model.
\<close>

record constants =
  ZONE_CHECK_DISTANCE :: real
  ZONE_CHECK_INTERVAL :: "64 word"
  TREE_SCALE :: int
  INVALID_ITEM_ID :: nat

text \<open>
  The members of \<^verbatim>\<open>EntityTreeRenderer\<close> that the functions below read or write. A null
  \<^verbatim>\<open>_tree\<close> or \<^verbatim>\<open>_entitiesScriptEngine\<close> is \<open>None\<close>; an engine is known by its number.
  \<^verbatim>\<open>_entitiesInScene\<close>, a hash from ids to entities, is the list of its values. The
  timestamps (\<^verbatim>\<open>_lastZoneCheck\<close> and the result of \<^verbatim>\<open>usecTimestampNow()\<close>, both declared
  outside these sources) are taken as unsigned 64-bit counts of microseconds, so that
  their difference wraps around.
\<close>

record EntityTreeRenderer =
  tree :: "EntityTree option"
  shuttingDown :: bool
  wantScripts :: bool
  viewState :: ViewState
  entitiesScriptEngine :: "int option"
  entitiesScriptEngineCount :: int
  entitiesInScene :: "EntityItem list"
  avatarPosition :: vec3
  lastZoneCheck :: "64 word"
  currentEntitiesInside :: "EntityItemID list"
  layeredZones :: LayeredZones

definition forceRecheckEntities :: "constants \<Rightarrow> EntityTreeRenderer \<Rightarrow> EntityTreeRenderer" where
  "forceRecheckEntities c s =
     s\<lparr>avatarPosition :=
         vec3_add (getAvatarPosition (viewState s))
           (vec3_splat (round32 (real_of_int (TREE_SCALE c))))\<rparr>"

definition applyLayeredZones :: "EntityTreeRenderer \<Rightarrow> event list" where
  "applyLayeredZones s =
     (if getMain3DScene (viewState s) then
        [EnqueueTransaction
           [ResetSelection ''RankedZones''
              (map (\<lambda>zone. getRenderItemID (lz_zone zone)) (elems (layeredZones s)))]]
      else [Warning ''EntityTreeRenderer::applyLayeredZones(), Unexpected null scene, possibly during application shutdown''])"

text \<open>
  The loop over \<^verbatim>\<open>foundEntities\<close>: \<open>out\<close> is the vector behind the pointer
  \<^verbatim>\<open>entitiesContainingAvatar\<close> (\<open>None\<close> for a null pointer), \<open>lz\<close> is \<^verbatim>\<open>_layeredZones\<close>.
\<close>

fun scanEntities ::
  "constants \<Rightarrow> vec3 \<Rightarrow> EntityItem list \<Rightarrow> EntityItemID list option \<Rightarrow> LayeredZones
     \<Rightarrow> EntityItemID list option \<times> LayeredZones" where
  "scanEntities c p [] out lz = (out, lz)"
| "scanEntities c p (entity # rest) out lz =
     (let isZone = (getType entity = Zone);
          hasScript = (getScript entity \<noteq> [])
      in if isZone \<or> hasScript then
           if entity_contains entity p then
             (let out' = map_option (\<lambda>v. v @ [getEntityItemID entity]) out;
                  lz' = (if isZone \<and> getVisible entity then
                           (let isValidRenderID = (getRenderItemID entity \<noteq> INVALID_ITEM_ID c)
                            in if isValidRenderID
                               then snd (LayeredZones_insert (LayeredZone_of entity) lz)
                               else lz)
                         else lz)
              in scanEntities c p rest out' lz')
           else scanEntities c p rest out lz
         else scanEntities c p rest out lz)"

text \<open>
  "check if our layered zones have changed": \<open>True\<close> is the early \<^verbatim>\<open>return\<close> (nothing to
  do), together with \<^verbatim>\<open>_layeredZones\<close>, whose marker \<^verbatim>\<open>contains\<close> may have moved.
\<close>

definition zonesUnchanged :: "LayeredZones \<Rightarrow> LayeredZones \<Rightarrow> fault + (bool \<times> LayeredZones)" where
  "zonesUnchanged new oldLayeredZones =
     (if elems new = [] then
        (if elems oldLayeredZones = [] then Inr (True, new) else Inr (False, new))
      else if elems oldLayeredZones \<noteq> [] then LayeredZones_contains new oldLayeredZones
      else Inr (False, new))"

text \<open>
  The zone set built by one scan, before it is compared with the old one. The radius of
  the query is the \<^verbatim>\<open>float\<close> literal \<^verbatim>\<open>0.01f\<close>.
\<close>

definition oldLayeredZones_of :: "EntityTreeRenderer \<Rightarrow> LayeredZones" where
  "oldLayeredZones_of s = fst (LayeredZones_move (Suc (self (layeredZones s))) (layeredZones s))"

definition foundEntities_of :: "EntityTree \<Rightarrow> EntityTreeRenderer \<Rightarrow> EntityItem list" where
  "foundEntities_of t s = findEntities t (avatarPosition s) (round32 (1 / 100))"

definition scanned ::
  "constants \<Rightarrow> EntityTree \<Rightarrow> EntityItemID list option \<Rightarrow> EntityTreeRenderer
     \<Rightarrow> EntityItemID list option \<times> LayeredZones" where
  "scanned c t out s =
     scanEntities c (avatarPosition s) (foundEntities_of t s) out
       (LayeredZones_clear (snd (LayeredZones_move (Suc (self (layeredZones s))) (layeredZones s))))"

text \<open>
  The result is \<open>didUpdate\<close>, the vector behind the pointer, the effects and the renderer.
  The local \<^verbatim>\<open>oldLayeredZones\<close> is an object of its own, at an address other than that
  of the member.
\<close>

definition findBestZoneAndMaybeContainingEntities ::
  "constants \<Rightarrow> EntityItemID list option \<Rightarrow> EntityTreeRenderer
     \<Rightarrow> fault + (bool \<times> EntityItemID list option \<times> event list \<times> EntityTreeRenderer)" where
  "findBestZoneAndMaybeContainingEntities c entitiesContainingAvatar s =
     (case tree s of
        None \<Rightarrow> Inl NullPointerDereference
      | Some t \<Rightarrow>
          (let query = FindEntities (avatarPosition s) (round32 (1 / 100));
               oldLayeredZones = oldLayeredZones_of s
           in case scanned c t entitiesContainingAvatar s of
                (out, new) \<Rightarrow>
                  (case zonesUnchanged new oldLayeredZones of
                     Inl e \<Rightarrow> Inl e
                   | Inr (unchanged, lz) \<Rightarrow>
                       (let s' = s\<lparr>layeredZones := lz\<rparr>
                        in if unchanged then Inr (False, out, [query], s')
                           else Inr (True, out,
                                     query # LayeredZones_apply lz @ applyLayeredZones s', s')))))"

definition leave_events :: "EntityTreeRenderer \<Rightarrow> EntityItemID \<Rightarrow> event list" where
  "leave_events s entityID =
     Emit_leaveEntity entityID #
     (if entitiesScriptEngine s \<noteq> None then [CallEntityScriptMethod entityID ''leaveEntity'']
      else [])"

definition enter_events :: "EntityTreeRenderer \<Rightarrow> EntityItemID \<Rightarrow> event list" where
  "enter_events s entityID =
     Emit_enterEntity entityID #
     (if entitiesScriptEngine s \<noteq> None then [CallEntityScriptMethod entityID ''enterEntity'']
      else [])"

text \<open>The body of \<^verbatim>\<open>if (movedEnough || enoughTimeElapsed)\<close>.\<close>

definition recheck ::
  "constants \<Rightarrow> 64 word \<Rightarrow> EntityTreeRenderer \<Rightarrow> fault + (bool \<times> event list \<times> EntityTreeRenderer)" where
  "recheck c now s =
     (let s1 = s\<lparr>avatarPosition := getAvatarPosition (viewState s), lastZoneCheck := now\<rparr>
      in case findBestZoneAndMaybeContainingEntities c (Some []) s1 of
           Inl e \<Rightarrow> Inl e
         | Inr (didUpdate, out, evs, s2) \<Rightarrow>
             (let entitiesContainingAvatar = (case out of Some v \<Rightarrow> v | None \<Rightarrow> []);
                  leaves = concat (map (\<lambda>entityID.
                             if entityID \<notin> set entitiesContainingAvatar
                             then leave_events s2 entityID else [])
                           (currentEntitiesInside s2));
                  enters = concat (map (\<lambda>entityID.
                             if entityID \<notin> set (currentEntitiesInside s2)
                             then enter_events s2 entityID else [])
                           entitiesContainingAvatar)
              in Inr (didUpdate, evs @ leaves @ enters,
                      s2\<lparr>currentEntitiesInside := entitiesContainingAvatar\<rparr>)))"

definition movedEnough :: "constants \<Rightarrow> EntityTreeRenderer \<Rightarrow> bool" where
  "movedEnough c s \<longleftrightarrow>
     distance (getAvatarPosition (viewState s)) (avatarPosition s) > ZONE_CHECK_DISTANCE c"

definition enoughTimeElapsed :: "constants \<Rightarrow> 64 word \<Rightarrow> EntityTreeRenderer \<Rightarrow> bool" where
  "enoughTimeElapsed c now s \<longleftrightarrow> (now - lastZoneCheck s) > ZONE_CHECK_INTERVAL c"

text \<open>\<open>now\<close> is the value of \<^verbatim>\<open>usecTimestampNow()\<close> at the call.\<close>

definition checkEnterLeaveEntities ::
  "constants \<Rightarrow> 64 word \<Rightarrow> EntityTreeRenderer \<Rightarrow> fault + (bool \<times> event list \<times> EntityTreeRenderer)" where
  "checkEnterLeaveEntities c now s =
     (if tree s \<noteq> None \<and> \<not> shuttingDown s then
        (if movedEnough c s \<or> enoughTimeElapsed c now s then recheck c now s
         else Inr (False, [], s))
      else Inr (False, [], s))"





text \<open>
  \<^verbatim>\<open>updateZone(id)\<close>: the dynamic cast to \<^verbatim>\<open>ZoneEntityItem\<close> gives null for an entity
  that is not found or is not a zone.
\<close>

definition updateZone ::
  "EntityItemID \<Rightarrow> EntityTreeRenderer \<Rightarrow> fault + (event list \<times> EntityTreeRenderer)" where
  "updateZone entityID s =
     (case tree s of
        None \<Rightarrow> Inl NullPointerDereference
      | Some t \<Rightarrow>
          (case findEntityByEntityItemID t entityID of
             None \<Rightarrow> Inr ([], s)
           | Some zone \<Rightarrow>
               if getType zone = Zone \<and> entity_contains zone (avatarPosition s) then
                 (case LayeredZones_update zone (layeredZones s) of
                    Inl e \<Rightarrow> Inl e
                  | Inr (evs, lz) \<Rightarrow> Inr (evs, s\<lparr>layeredZones := lz\<rparr>))
               else Inr ([], s)))"

subsection \<open>Auxiliary notions and concrete inputs\<close>

text \<open>Two layers of equal rank: neither is less than the other.\<close>

definition same_key :: "LayeredZone \<Rightarrow> LayeredZone \<Rightarrow> bool" where
  "same_key l r \<longleftrightarrow> lz_volume l = lz_volume r \<and> lz_id l = lz_id r"

text \<open>A sequence of calls of \<^verbatim>\<open>insert\<close>, one for each layer of the list.\<close>

definition insert_all :: "LayeredZone list \<Rightarrow> LayeredZones \<Rightarrow> LayeredZones" where
  "insert_all ls s = fold (\<lambda>l s. snd (LayeredZones_insert l s)) ls s"

text \<open>
  Modelled from the spec: the constructor \<^verbatim>\<open>LayeredZones(EntityTreeRenderer*)\<close> is in the
  header; by the spec \<^verbatim>\<open>clear()\<close> "must leave the structure in the same state as freshly
  constructed". This is the set so constructed at address \<open>a\<close>.
\<close>

definition fresh_LayeredZones :: "nat \<Rightarrow> LayeredZones" where
  "fresh_LayeredZones a = \<lparr>self = a, elems = [], zmap = Map.empty, skyboxLayer = EndOf a\<rparr>"

text \<open>
  Concrete inputs for the closed instances below: a zone entity with a given id, volume,
  visibility and answer of its containment test, and the layer of a visible zone.
\<close>

definition example_zone :: "nat \<Rightarrow> real \<Rightarrow> bool \<Rightarrow> bool \<Rightarrow> EntityItem" where
  "example_zone i v vis inside =
     \<lparr>getEntityItemID = i, getType = Zone, getScript = [], getVisible = vis,
      entity_contains = (\<lambda>p. inside), getRenderItemID = i, getVolumeEstimate = v,
      getRenderableInterface = True\<rparr>"

definition example_layer :: "nat \<Rightarrow> real \<Rightarrow> LayeredZone" where
  "example_layer i v = LayeredZone_of (example_zone i v True True)"

text \<open>
  The ids that the scan of one recheck collects: the found entities that are zones or
  carry a script and whose exact containment test holds at the point, in the order found.
\<close>

definition containingIDs :: "vec3 \<Rightarrow> EntityItem list \<Rightarrow> EntityItemID list" where
  "containingIDs p es =
     map getEntityItemID
       (filter (\<lambda>e. (getType e = Zone \<or> getScript e \<noteq> []) \<and> entity_contains e p) es)"

text \<open>
  A tree that finds the given entities wherever it is asked, constants, and a renderer
  with that tree, a scene, a script engine, the viewpoint at the origin and the given zone
  set and tracked containment set.
\<close>

definition example_tree :: "EntityItem list \<Rightarrow> EntityTree" where
  "example_tree found =
     \<lparr>findEntities = (\<lambda>p r. found),
      findEntityByEntityItemID = (\<lambda>i. find (\<lambda>e. getEntityItemID e = i) found)\<rparr>"

definition example_constants :: constants where
  "example_constants =
     \<lparr>ZONE_CHECK_DISTANCE = 1 / 1024, ZONE_CHECK_INTERVAL = 100000, TREE_SCALE = 32768,
      INVALID_ITEM_ID = 0\<rparr>"

definition example_renderer ::
  "EntityItem list \<Rightarrow> LayeredZones \<Rightarrow> EntityItemID list \<Rightarrow> EntityTreeRenderer" where
  "example_renderer found lz inside =
     \<lparr>tree = Some (example_tree found), shuttingDown = False, wantScripts = True,
      viewState = \<lparr>getAvatarPosition = Vec3 0 0 0, getMain3DScene = True\<rparr>,
      entitiesScriptEngine = Some 1, entitiesScriptEngineCount = 1, entitiesInScene = found,
      avatarPosition = Vec3 0 0 0, lastZoneCheck = 0, currentEntitiesInside = inside,
      layeredZones = lz\<rparr>"

text \<open>
  The effects that deliver a leave, and those that deliver an enter: the signal and the
  call of the script method of that name.
\<close>

fun is_leave :: "event \<Rightarrow> bool" where
  "is_leave (Emit_leaveEntity _) = True"
| "is_leave (CallEntityScriptMethod _ m) = (m = ''leaveEntity'')"
| "is_leave _ = False"

fun is_enter :: "event \<Rightarrow> bool" where
  "is_enter (Emit_enterEntity _) = True"
| "is_enter (CallEntityScriptMethod _ m) = (m = ''enterEntity'')"
| "is_enter _ = False"

text \<open>The call passes the guard and the recheck policy: it performs a recheck.\<close>

definition rechecks :: "constants \<Rightarrow> 64 word \<Rightarrow> EntityTreeRenderer \<Rightarrow> bool" where
  "rechecks c now s \<longleftrightarrow>
     tree s \<noteq> None \<and> \<not> shuttingDown s \<and> (movedEnough c s \<or> enoughTimeElapsed c now s)"

text \<open>The same renderer with the viewpoint, and the stored position, at the point \<open>p\<close>.\<close>

definition example_renderer_at ::
  "vec3 \<Rightarrow> EntityItem list \<Rightarrow> LayeredZones \<Rightarrow> EntityItemID list \<Rightarrow> EntityTreeRenderer" where
  "example_renderer_at p found lz inside =
     (example_renderer found lz inside)
       \<lparr>viewState := \<lparr>getAvatarPosition = p, getMain3DScene = True\<rparr>, avatarPosition := p\<rparr>"

section \<open>Properties\<close>

subsection \<open>Rounding to single precision\<close>

lemma round32_zero: "round32 0 = 0"
  by (simp add: round32_def)

lemma float_exponent_eq:
  assumes "2 powi e \<le> \<bar>x\<bar>" and "\<bar>x\<bar> < 2 powi (e + 1)" and "- 126 \<le> e"
  shows "float_exponent x = e"
proof -
  have pos: "0 < \<bar>x\<bar>" using assms(1) by (smt (verit) zero_less_power_int)
  have a: "(2::real) powr real_of_int e = 2 powi e"
    and b: "(2::real) powr (real_of_int e + 1) = 2 powi (e + 1)"
    using powr_real_of_int' [of 2 e] powr_real_of_int' [of 2 "e + 1"] by simp_all
  have "\<lfloor>log 2 \<bar>x\<bar>\<rfloor> = e"
    using floor_log_eq_powr_iff [of "\<bar>x\<bar>" 2 e] pos assms(1,2) a b by simp
  with assms(3) show ?thesis by (simp add: float_exponent_def)
qed

lemma round32_eval:
  assumes "2 powi e \<le> \<bar>x\<bar>" and "\<bar>x\<bar> < 2 powi (e + 1)" and "- 126 \<le> e"
  shows "round32 x = of_int (round_to_even (x / 2 powi (e - 23))) * 2 powi (e - 23)"
proof -
  have "x \<noteq> 0" using assms(1) by (smt (verit) zero_less_power_int)
  then show ?thesis by (simp add: round32_def float_exponent_eq [OF assms])
qed

text \<open>
  The values met below: \<open>32768\<close> and the squares and sums of the length of
  \<open>(32768, 32768, 32768)\<close> are binary32 values; \<open>2 powi 40 + 32768\<close> is not, and the
  nearest binary32 value is \<open>2 powi 40\<close>, where the spacing is \<open>2 powi 17\<close>.
\<close>

lemma round32_exact:
  "round32 32768 = 32768"
  "round32 1073741824 = 1073741824"
  "round32 2147483648 = 2147483648"
  "round32 3221225472 = 3221225472"
  using round32_eval [of 15 32768] round32_eval [of 30 1073741824]
    round32_eval [of 31 2147483648] round32_eval [of 31 3221225472]
  by (simp_all add: round_to_even_def)

lemma round32_absorbed: "round32 1099511660544 = 1099511627776"
  using round32_eval [of 40 1099511660544] by (simp add: round_to_even_def)

lemma round_to_even_ge_floor: "\<lfloor>q\<rfloor> \<le> round_to_even q"
  by (simp add: round_to_even_def Let_def)

text \<open>Rounding does not go below the power of two under its argument.\<close>

lemma round32_ge_power:
  assumes "2 powi e \<le> x" and "- 126 \<le> e"
  shows "2 powi e \<le> round32 x"
proof -
  have pos: "0 < x" using assms(1) by (smt (verit) zero_less_power_int)
  define k where "k = \<lfloor>log 2 x\<rfloor>"
  have kx: "2 powi k \<le> x" and xk: "x < 2 powi (k + 1)"
    using floor_log_eq_powr_iff [of x 2 k] pos powr_real_of_int' [of 2 k]
      powr_real_of_int' [of 2 "k + 1"] by (simp_all add: k_def)
  have ek: "e \<le> k"
  proof (rule ccontr)
    assume "\<not> e \<le> k"
    then have "k + 1 \<le> e" by simp
    then have "(2::real) powi (k + 1) \<le> 2 powi e" by (intro power_int_increasing) simp_all
    with xk assms(1) show False by simp
  qed
  with assms(2) have k126: "- 126 \<le> k" by simp
  have ax: "\<bar>x\<bar> = x" using pos by simp
  have ev: "round32 x = of_int (round_to_even (x / 2 powi (k - 23))) * 2 powi (k - 23)"
    using round32_eval [of k x] kx xk k126 ax by simp
  have u: "(0::real) < 2 powi (k - 23)" by (simp add: zero_less_power_int)
  have split: "(2::real) powi k = 2 powi 23 * 2 powi (k - 23)"
    using power_int_add [of "2::real" 23 "k - 23"] by simp
  have "(2::real) powi 23 \<le> x / 2 powi (k - 23)"
    using kx u split by (simp add: pos_le_divide_eq)
  then have "(8388608::real) \<le> x / 2 powi (k - 23)" by simp
  then have "(8388608::int) \<le> \<lfloor>x / 2 powi (k - 23)\<rfloor>"
    using le_floor_iff [of 8388608 "x / 2 powi (k - 23)"] by simp
  then have "(8388608::int) \<le> round_to_even (x / 2 powi (k - 23))"
    using round_to_even_ge_floor [of "x / 2 powi (k - 23)"] by (rule order_trans)
  then have "(8388608::real) \<le> of_int (round_to_even (x / 2 powi (k - 23)))" by linarith
  then have "8388608 * 2 powi (k - 23) \<le> round32 x"
    unfolding ev using u by (simp add: mult_right_mono)
  moreover have "(2::real) powi k = 8388608 * 2 powi (k - 23)" using split by simp
  moreover have "(2::real) powi e \<le> 2 powi k" using ek by (intro power_int_increasing) simp_all
  ultimately show ?thesis by simp
qed

subsection \<open>The order of layers and \<^verbatim>\<open>std::set::insert\<close>\<close>

lemma LayeredZone_less_trans: "LayeredZone_less x y \<Longrightarrow> LayeredZone_less y z \<Longrightarrow> LayeredZone_less x z"
  unfolding LayeredZone_less_def by linarith

lemma LayeredZone_less_asym: "LayeredZone_less x y \<Longrightarrow> \<not> LayeredZone_less y x"
  unfolding LayeredZone_less_def by linarith

lemma not_less_iff_same_key:
  "(\<not> LayeredZone_less x y \<and> \<not> LayeredZone_less y x) = same_key x y"
  unfolding LayeredZone_less_def same_key_def by linarith

lemma std_set_insert_set:
  "set (fst (std_set_insert x xs)) = (if snd (snd (std_set_insert x xs)) then insert x (set xs) else set xs)"
proof (induction xs)
  case Nil
  show ?case by simp
next
  case (Cons y ys)
  obtain zs n b where r: "std_set_insert x ys = (zs, n, b)"
    by (cases "std_set_insert x ys")
  with Cons.IH have "set zs = (if b then insert x (set ys) else set ys)" by simp
  with r show ?case by (simp add: insert_commute)
qed


lemma std_set_insert_sorted:
  "sorted_wrt LayeredZone_less xs \<Longrightarrow> sorted_wrt LayeredZone_less (fst (std_set_insert x xs))"
proof (induction xs)
  case Nil
  show ?case by simp
next
  case (Cons y ys)
  obtain zs n b where r: "std_set_insert x ys = (zs, n, b)"
    by (cases "std_set_insert x ys")
  from Cons.prems have sys: "sorted_wrt LayeredZone_less ys"
    and yall: "\<forall>a\<in>set ys. LayeredZone_less y a" by simp_all
  from Cons.IH [OF sys] r have szs: "sorted_wrt LayeredZone_less zs" by simp
  have sub: "set zs \<subseteq> insert x (set ys)"
    using std_set_insert_set [of x ys] r by (simp split: if_splits) blast
  show ?case
  proof (cases "LayeredZone_less x y")
    case True
    then have "\<forall>a\<in>set ys. LayeredZone_less x a"
      using yall LayeredZone_less_trans by blast
    with True Cons.prems show ?thesis by simp
  next
    case nless: False
    show ?thesis
    proof (cases "LayeredZone_less y x")
      case True
      then have "\<forall>a\<in>set zs. LayeredZone_less y a"
        using yall sub by blast
      with True nless r szs show ?thesis by simp
    next
      case False
      with nless Cons.prems show ?thesis by simp
    qed
  qed
qed

lemma std_set_insert_present:
  "sorted_wrt LayeredZone_less xs \<Longrightarrow> y \<in> set xs \<Longrightarrow> same_key y x
     \<Longrightarrow> std_set_insert x xs = (xs, y, False)"
proof (induction xs)
  case Nil
  then show ?case by simp
next
  case (Cons a as)
  show ?case
  proof (cases "y = a")
    case True
    with Cons.prems(3) have "\<not> LayeredZone_less x a" "\<not> LayeredZone_less a x"
      using not_less_iff_same_key [of a x] by simp_all
    with True show ?thesis by simp
  next
    case False
    with Cons.prems have yin: "y \<in> set as" and ay: "LayeredZone_less a y"
      and sas: "sorted_wrt LayeredZone_less as" by simp_all
    from ay Cons.prems(3) have ax: "LayeredZone_less a x"
      unfolding same_key_def LayeredZone_less_def by simp
    then have nxa: "\<not> LayeredZone_less x a" by (rule LayeredZone_less_asym)
    have "std_set_insert x as = (as, y, False)"
      using Cons.IH [OF sas yin Cons.prems(3)] .
    with ax nxa show ?thesis by simp
  qed
qed

lemma std_set_insert_absent:
  "\<forall>y\<in>set xs. \<not> same_key y x \<Longrightarrow> \<exists>zs. std_set_insert x xs = (zs, x, True)"
proof (induction xs)
  case Nil
  then show ?case by simp
next
  case (Cons a as)
  then obtain zs where r: "std_set_insert x as = (zs, x, True)" by auto
  have "LayeredZone_less x a \<or> LayeredZone_less a x"
    using Cons.prems not_less_iff_same_key [of a x] by auto
  with r show ?case by auto
qed


lemma LayeredZones_insert_elems:
  "elems (snd (LayeredZones_insert l s)) = fst (std_set_insert l (elems s))"
  by (cases "std_set_insert l (elems s)") (simp add: LayeredZones_insert_def Let_def)

lemma insert_all_sorted:
  "sorted_wrt LayeredZone_less (elems s) \<Longrightarrow> sorted_wrt LayeredZone_less (elems (insert_all ls s))"
proof (induction ls arbitrary: s)
  case Nil
  then show ?case by (simp add: insert_all_def)
next
  case (Cons l ls)
  have "sorted_wrt LayeredZone_less (elems (snd (LayeredZones_insert l s)))"
    using std_set_insert_sorted [OF Cons.prems] by (simp add: LayeredZones_insert_elems)
  from Cons.IH [OF this] show ?case by (simp add: insert_all_def)
qed

lemma sorted_distinct_keys:
  "sorted_wrt LayeredZone_less xs \<Longrightarrow> distinct (map (\<lambda>l. (lz_volume l, lz_id l)) xs)"
proof (induction xs)
  case Nil
  show ?case by simp
next
  case (Cons a as)
  then have "\<forall>y\<in>set as. (lz_volume a, lz_id a) \<noteq> (lz_volume y, lz_id y)"
    unfolding LayeredZone_less_def by auto
  with Cons show ?case by auto
qed

lemma std_set_insert_absent_exact:
  "\<forall>y\<in>set xs. \<not> same_key y x \<Longrightarrow>
     std_set_insert x xs
       = (takeWhile (\<lambda>y. LayeredZone_less y x) xs @ x # dropWhile (\<lambda>y. LayeredZone_less y x) xs,
          x, True)"
proof (induction xs)
  case Nil
  show ?case by simp
next
  case (Cons a as)
  then have ih: "std_set_insert x as
       = (takeWhile (\<lambda>y. LayeredZone_less y x) as @ x # dropWhile (\<lambda>y. LayeredZone_less y x) as,
          x, True)" by simp
  have tot: "LayeredZone_less x a \<or> LayeredZone_less a x"
    using Cons.prems not_less_iff_same_key [of a x] by auto
  show ?case
  proof (cases "LayeredZone_less x a")
    case True
    then have "\<not> LayeredZone_less a x" by (rule LayeredZone_less_asym)
    with True show ?thesis by simp
  next
    case False
    with tot have "LayeredZone_less a x" by simp
    with False ih show ?thesis by simp
  qed
qed

lemma insert_has_equal_rank:
  "\<exists>y\<in>set (elems (snd (LayeredZones_insert l s))). same_key y l"
proof (cases "\<forall>y\<in>set (elems s). \<not> same_key y l")
  case True
  from std_set_insert_absent_exact [OF True]
  have "l \<in> set (elems (snd (LayeredZones_insert l s)))"
    by (simp add: LayeredZones_insert_elems)
  moreover have "same_key l l" by (simp add: same_key_def)
  ultimately show ?thesis by blast
next
  case False
  then obtain y where y: "y \<in> set (elems s)" "same_key y l" by blast
  have "set (elems s) \<subseteq> set (elems (snd (LayeredZones_insert l s)))"
    using std_set_insert_set [of l "elems s"]
    by (simp add: LayeredZones_insert_elems split: if_splits) blast
  with y show ?thesis by blast
qed

lemma insert_all_subset: "set (elems s) \<subseteq> set (elems (insert_all ls s))"
proof (induction ls arbitrary: s)
  case Nil
  show ?case by (simp add: insert_all_def)
next
  case (Cons l ls)
  have "set (elems s) \<subseteq> set (elems (snd (LayeredZones_insert l s)))"
    using std_set_insert_set [of l "elems s"]
    by (simp add: LayeredZones_insert_elems split: if_splits) blast
  also have "\<dots> \<subseteq> set (elems (insert_all ls (snd (LayeredZones_insert l s))))"
    by (rule Cons.IH)
  finally show ?case by (simp add: insert_all_def)
qed

lemma insert_all_upper: "set (elems (insert_all ls s)) \<subseteq> set (elems s) \<union> set ls"
proof (induction ls arbitrary: s)
  case Nil
  show ?case by (simp add: insert_all_def)
next
  case (Cons l ls)
  have one: "set (elems (snd (LayeredZones_insert l s))) \<subseteq> insert l (set (elems s))"
    using std_set_insert_set [of l "elems s"]
    by (simp add: LayeredZones_insert_elems split: if_splits) blast
  have "set (elems (insert_all ls (snd (LayeredZones_insert l s))))
          \<subseteq> set (elems (snd (LayeredZones_insert l s))) \<union> set ls"
    by (rule Cons.IH)
  with one have "set (elems (insert_all ls (snd (LayeredZones_insert l s))))
          \<subseteq> set (elems s) \<union> set (l # ls)" by auto
  then show ?case by (simp add: insert_all_def)
qed

lemma insert_all_covers:
  "l \<in> set ls \<Longrightarrow> \<exists>y\<in>set (elems (insert_all ls s)). same_key y l"
proof (induction ls arbitrary: s)
  case Nil
  then show ?case by simp
next
  case (Cons a ls)
  have unf: "insert_all (a # ls) s = insert_all ls (snd (LayeredZones_insert a s))"
    by (simp add: insert_all_def)
  show ?case
  proof (cases "l = a")
    case True
    from insert_has_equal_rank [of a s] obtain y where
      "y \<in> set (elems (snd (LayeredZones_insert a s)))" and k: "same_key y a" by blast
    with insert_all_subset [of "snd (LayeredZones_insert a s)" ls]
    have "y \<in> set (elems (insert_all (a # ls) s))" unfolding unf by blast
    with k True show ?thesis by blast
  next
    case False
    with Cons.prems have "l \<in> set ls" by simp
    from Cons.IH [OF this, of "snd (LayeredZones_insert a s)"] show ?thesis
      unfolding unf .
  qed
qed

lemmas example_simps =
  insert_all_def fresh_LayeredZones_def example_layer_def example_zone_def LayeredZone_of_def
  LayeredZones_insert_def LayeredZone_less_def LayeredZone_eq_def map_emplace_def set_end_def

lemma ex_two: "elems (insert_all [example_layer 3 10, example_layer 2 5] (fresh_LayeredZones 0))
   = [example_layer 2 5, example_layer 3 10]"
  by (simp add: example_simps)

subsection \<open>Move construction\<close>

text \<open>
  C4: move-constructing \<open>B\<close> from \<open>A\<close> keeps the layers and the relative offset of the
  skybox-layer marker: when the marker of \<open>A\<close> designates its \<open>k\<close>-th layer, the marker
  of \<open>B\<close> designates the \<open>k\<close>-th layer of \<open>B\<close>; when the marker of \<open>A\<close> is the
  past-the-end iterator of \<open>A\<close>, the marker of \<open>B\<close> is the past-the-end iterator of
  \<open>B\<close> itself.
\<close>

theorem move_preserves_skybox_offset:
  "LayeredZones_move this A = (B, A') \<Longrightarrow>
     elems B = elems A \<and>
     (\<forall>k. k < length (elems A) \<and> skyboxLayer A = At (elems A ! k)
          \<longrightarrow> k < length (elems B) \<and> skyboxLayer B = At (elems B ! k)) \<and>
     (skyboxLayer A = set_end A \<longrightarrow> skyboxLayer B = set_end B)"
  by (auto simp: LayeredZones_move_def Let_def set_end_def split: if_splits)

text \<open>
  An instance of each case: the marker at the second of two layers, and the marker past
  the end of a set of one layer.
\<close>

theorem move_preserves_skybox_offset_witness:
  "skyboxLayer (fst (LayeredZones_move 5
       ((insert_all [example_layer 3 10, example_layer 2 5] (fresh_LayeredZones 0))
          \<lparr>skyboxLayer := At (example_layer 3 10)\<rparr>)))
     = At (elems (fst (LayeredZones_move 5
       ((insert_all [example_layer 3 10, example_layer 2 5] (fresh_LayeredZones 0))
          \<lparr>skyboxLayer := At (example_layer 3 10)\<rparr>))) ! 1)
   \<and> skyboxLayer (fst (LayeredZones_move 5
         (insert_all [example_layer 3 10] (fresh_LayeredZones 0)))) = EndOf 5"
proof -
  let ?A = "(insert_all [example_layer 3 10, example_layer 2 5] (fresh_LayeredZones 0))
          \<lparr>skyboxLayer := At (example_layer 3 10)\<rparr>"
  let ?A2 = "insert_all [example_layer 3 10] (fresh_LayeredZones 0)"
  have e: "elems ?A = [example_layer 2 5, example_layer 3 10]"
    by (simp add: ex_two)
  have h1: "(1::nat) < length (elems ?A) \<and> skyboxLayer ?A = At (elems ?A ! 1)"
    by (simp add: e)
  have h2: "skyboxLayer ?A2 = set_end ?A2"
    by (simp add: example_simps)
  have s2: "self (fst (LayeredZones_move 5 ?A2)) = 5"
    by (simp add: LayeredZones_move_def Let_def)
  from move_preserves_skybox_offset [of 5 ?A "fst (LayeredZones_move 5 ?A)" "snd (LayeredZones_move 5 ?A)"] h1
  have c1: "skyboxLayer (fst (LayeredZones_move 5 ?A)) = At (elems (fst (LayeredZones_move 5 ?A)) ! 1)"
    by simp
  from move_preserves_skybox_offset [of 5 ?A2 "fst (LayeredZones_move 5 ?A2)" "snd (LayeredZones_move 5 ?A2)"] h2
  have "skyboxLayer (fst (LayeredZones_move 5 ?A2)) = set_end (fst (LayeredZones_move 5 ?A2))"
    by simp
  then have c2: "skyboxLayer (fst (LayeredZones_move 5 ?A2)) = EndOf 5"
    by (simp add: set_end_def s2)
  from c1 c2 show ?thesis by simp
qed

subsection \<open>Insertion\<close>

text \<open>
  C5, as the code has it: rank, not id, decides. A sequence of inserts into a set whose
  layers are in ascending order keeps the layers it had, adds for every inserted layer
  that had no layer of its rank that very layer, and adds nothing else; afterwards no two
  layers have the same volume and id. Inserting a layer whose volume and id are those of
  a layer \<open>y\<close> of the set returns the position of \<open>y\<close> with \<open>inserted = false\<close> and
  leaves the collection and the id-to-position mapping as they are, and the insert is
  refused only then. Inserting a layer of a rank that no layer of the set has returns its
  position with \<open>inserted = true\<close>, puts it into the collection after the layers below it
  and before the layers above it, and enters its position in the mapping under its id
  unless the mapping has an entry for that id already.
\<close>

theorem insert_rejects_equal_rank_only:
  assumes "sorted_wrt LayeredZone_less (elems s0)"
  shows "distinct (map (\<lambda>l. (lz_volume l, lz_id l)) (elems (insert_all ls s0))) \<and>
         (\<forall>y\<in>set (elems (insert_all ls s0)). same_key y layer \<longrightarrow>
            LayeredZones_insert layer (insert_all ls s0) = ((At y, False), insert_all ls s0)) \<and>
         (snd (fst (LayeredZones_insert layer (insert_all ls s0))) = False
            \<longleftrightarrow> (\<exists>y\<in>set (elems (insert_all ls s0)). same_key y layer)) \<and>
         ((\<forall>y\<in>set (elems (insert_all ls s0)). \<not> same_key y layer) \<longrightarrow>
            LayeredZones_insert layer (insert_all ls s0)
              = ((At layer, True),
                 (insert_all ls s0)
                   \<lparr>elems := takeWhile (\<lambda>y. LayeredZone_less y layer) (elems (insert_all ls s0))
                             @ layer
                             # dropWhile (\<lambda>y. LayeredZone_less y layer) (elems (insert_all ls s0)),
                    zmap := map_emplace (lz_id layer) (At layer) (zmap (insert_all ls s0))\<rparr>)
            \<and> set (elems (snd (LayeredZones_insert layer (insert_all ls s0))))
                = insert layer (set (elems (insert_all ls s0)))
            \<and> sorted_wrt LayeredZone_less
                (elems (snd (LayeredZones_insert layer (insert_all ls s0))))) \<and>
         set (elems s0) \<subseteq> set (elems (insert_all ls s0)) \<and>
         set (elems (insert_all ls s0)) \<subseteq> set (elems s0) \<union> set ls \<and>
         (\<forall>l\<in>set ls. \<exists>y\<in>set (elems (insert_all ls s0)). same_key y l)"
proof -
  let ?s = "insert_all ls s0"
  have srt: "sorted_wrt LayeredZone_less (elems ?s)"
    using assms by (rule insert_all_sorted)
  have a: "distinct (map (\<lambda>l. (lz_volume l, lz_id l)) (elems ?s))"
    using srt by (rule sorted_distinct_keys)
  have b: "\<forall>y\<in>set (elems ?s). same_key y layer \<longrightarrow>
            LayeredZones_insert layer ?s = ((At y, False), ?s)"
  proof (intro ballI impI)
    fix y assume "y \<in> set (elems ?s)" "same_key y layer"
    from std_set_insert_present [OF srt this]
    show "LayeredZones_insert layer ?s = ((At y, False), ?s)"
      by (simp add: LayeredZones_insert_def)
  qed
  have c: "snd (fst (LayeredZones_insert layer ?s)) = False
            \<longleftrightarrow> (\<exists>y\<in>set (elems ?s). same_key y layer)"
  proof
    assume f: "snd (fst (LayeredZones_insert layer ?s)) = False"
    show "\<exists>y\<in>set (elems ?s). same_key y layer"
    proof (rule ccontr)
      assume "\<not> (\<exists>y\<in>set (elems ?s). same_key y layer)"
      then have "\<forall>y\<in>set (elems ?s). \<not> same_key y layer" by simp
      from std_set_insert_absent [OF this] obtain zs where
        "std_set_insert layer (elems ?s) = (zs, layer, True)" ..
      with f show False by (simp add: LayeredZones_insert_def)
    qed
  next
    assume "\<exists>y\<in>set (elems ?s). same_key y layer"
    with b show "snd (fst (LayeredZones_insert layer ?s)) = False" by auto
  qed
  have d: "LayeredZones_insert layer ?s
              = ((At layer, True),
                 ?s\<lparr>elems := takeWhile (\<lambda>y. LayeredZone_less y layer) (elems ?s)
                             @ layer # dropWhile (\<lambda>y. LayeredZone_less y layer) (elems ?s),
                    zmap := map_emplace (lz_id layer) (At layer) (zmap ?s)\<rparr>)
            \<and> set (elems (snd (LayeredZones_insert layer ?s))) = insert layer (set (elems ?s))
            \<and> sorted_wrt LayeredZone_less (elems (snd (LayeredZones_insert layer ?s)))"
    if n: "\<forall>y\<in>set (elems ?s). \<not> same_key y layer"
  proof -
    note ex = std_set_insert_absent_exact [OF n]
    have d1: "LayeredZones_insert layer ?s
              = ((At layer, True),
                 ?s\<lparr>elems := takeWhile (\<lambda>y. LayeredZone_less y layer) (elems ?s)
                             @ layer # dropWhile (\<lambda>y. LayeredZone_less y layer) (elems ?s),
                    zmap := map_emplace (lz_id layer) (At layer) (zmap ?s)\<rparr>)"
      by (simp add: LayeredZones_insert_def ex)
    have d2: "set (elems (snd (LayeredZones_insert layer ?s))) = insert layer (set (elems ?s))"
      using std_set_insert_set [of layer "elems ?s"] ex
      by (simp add: LayeredZones_insert_elems)
    have d3: "sorted_wrt LayeredZone_less (elems (snd (LayeredZones_insert layer ?s)))"
      using std_set_insert_sorted [OF srt, of layer] by (simp add: LayeredZones_insert_elems)
    from d1 d2 d3 show ?thesis by (intro conjI)
  qed
  note e = insert_all_subset [of s0 ls] insert_all_upper [of ls s0]
  have g: "\<forall>l\<in>set ls. \<exists>y\<in>set (elems ?s). same_key y l"
    using insert_all_covers by blast
  from d have d': "(\<forall>y\<in>set (elems ?s). \<not> same_key y layer) \<longrightarrow>
            LayeredZones_insert layer ?s
              = ((At layer, True),
                 ?s\<lparr>elems := takeWhile (\<lambda>y. LayeredZone_less y layer) (elems ?s)
                             @ layer # dropWhile (\<lambda>y. LayeredZone_less y layer) (elems ?s),
                    zmap := map_emplace (lz_id layer) (At layer) (zmap ?s)\<rparr>)
            \<and> set (elems (snd (LayeredZones_insert layer ?s))) = insert layer (set (elems ?s))
            \<and> sorted_wrt LayeredZone_less (elems (snd (LayeredZones_insert layer ?s)))"
    by (rule impI)
  show ?thesis
    using a b c d' e g by (intro conjI)
qed

text \<open>
  Into the set of the layers \<open>(id 2, volume 5)\<close> and \<open>(id 3, volume 10)\<close>: the layer
  \<open>(id 3, volume 10)\<close> again is refused, and the layer \<open>(id 3, volume 7)\<close>, of a new
  rank, goes between the two; the mapping keeps its entry for the id 3.
\<close>

theorem insert_rejects_equal_rank_only_witness:
  "sorted_wrt LayeredZone_less (elems (fresh_LayeredZones 0))
   \<and> example_layer 3 10 \<in> set (elems (insert_all [example_layer 3 10, example_layer 2 5] (fresh_LayeredZones 0)))
   \<and> same_key (example_layer 3 10) (example_layer 3 10)
   \<and> LayeredZones_insert (example_layer 3 10)
        (insert_all [example_layer 3 10, example_layer 2 5] (fresh_LayeredZones 0))
      = ((At (example_layer 3 10), False),
         insert_all [example_layer 3 10, example_layer 2 5] (fresh_LayeredZones 0))
   \<and> LayeredZones_insert (example_layer 3 7)
        (insert_all [example_layer 3 10, example_layer 2 5] (fresh_LayeredZones 0))
      = ((At (example_layer 3 7), True),
         (insert_all [example_layer 3 10, example_layer 2 5] (fresh_LayeredZones 0))
           \<lparr>elems := [example_layer 2 5, example_layer 3 7, example_layer 3 10]\<rparr>)"
proof -
  let ?S = "insert_all [example_layer 3 10, example_layer 2 5] (fresh_LayeredZones 0)"
  have h: "sorted_wrt LayeredZone_less (elems (fresh_LayeredZones 0))"
    by (simp add: fresh_LayeredZones_def)
  have m: "example_layer 3 10 \<in> set (elems ?S)"
    by (simp add: ex_two)
  have k: "same_key (example_layer 3 10) (example_layer 3 10)"
    by (simp add: same_key_def)
  note refused = insert_rejects_equal_rank_only
    [OF h, of "[example_layer 3 10, example_layer 2 5]" "example_layer 3 10",
     THEN conjunct2, THEN conjunct1, rule_format]
  have r1: "LayeredZones_insert (example_layer 3 10) ?S = ((At (example_layer 3 10), False), ?S)"
    using m k by (rule refused)
  have n: "\<forall>y\<in>set (elems ?S). \<not> same_key y (example_layer 3 7)"
    unfolding ex_two
    by (simp add: same_key_def example_layer_def LayeredZone_of_def example_zone_def)
  note inserted = insert_rejects_equal_rank_only
    [OF h, of "[example_layer 3 10, example_layer 2 5]" "example_layer 3 7",
     THEN conjunct2, THEN conjunct2, THEN conjunct2, THEN conjunct1, THEN mp, OF n,
     THEN conjunct1]
  have r2: "LayeredZones_insert (example_layer 3 7) ?S
      = ((At (example_layer 3 7), True),
         ?S\<lparr>elems := [example_layer 2 5, example_layer 3 7, example_layer 3 10]\<rparr>)"
    unfolding inserted by (simp add: example_simps)
  from h m k r1 r2 show ?thesis by (intro conjI)
qed

text \<open>
  C5 as stated fails: a layer with the id of a layer already present and another volume is
  inserted, and the set then holds two layers of one id.
\<close>

theorem insert_same_id_counterexample:
  "lz_id (example_layer 3 5) = lz_id (example_layer 3 10)
   \<and> example_layer 3 10 \<in> set (elems (insert_all [example_layer 3 10] (fresh_LayeredZones 0)))
   \<and> snd (fst (LayeredZones_insert (example_layer 3 5)
              (insert_all [example_layer 3 10] (fresh_LayeredZones 0)))) = True
   \<and> map lz_id (elems (insert_all [example_layer 3 10, example_layer 3 5] (fresh_LayeredZones 0)))
       = [3, 3]"
  by (simp add: example_simps)

subsection \<open>The prefix comparison\<close>

text \<open>
  C9 fails: \<^verbatim>\<open>A.contains(B)\<close> with \<open>A\<close> of one layer and \<open>B\<close> of two, whose first
  layers agree and whose marker is past the end, reads the second layer of \<open>A\<close>, which
  does not exist.
\<close>

theorem contains_reads_past_the_end:
  "LayeredZones_contains
     (insert_all [example_layer 3 5] (fresh_LayeredZones 0))
     (insert_all [example_layer 3 5, example_layer 2 10] (fresh_LayeredZones 5))
   = Inl PastTheEndDereference"
  by (simp add: LayeredZones_contains_def range_upto_def example_simps)



subsection \<open>The containment resolver\<close>

lemma scanEntities_ids:
  "fst (scanEntities c p es out lz) = map_option (\<lambda>v. v @ containingIDs p es) out"
proof (induction es arbitrary: out lz)
  case Nil
  show ?case by (simp add: containingIDs_def option.map_ident)
next
  case (Cons e es)
  show ?case
    by (cases out) (simp_all add: Cons.IH Let_def containingIDs_def)
qed

lemma oldLayeredZones_of_elems: "elems (oldLayeredZones_of s) = elems (layeredZones s)"
  by (simp add: oldLayeredZones_of_def LayeredZones_move_def Let_def)

text \<open>
  C6: in \<^verbatim>\<open>findBestZoneAndMaybeContainingEntities\<close>, when the old and the newly built
  zone sets are both empty the call reports no update and neither applies nor publishes;
  when exactly one of them is empty it reports an update, calls \<^verbatim>\<open>apply()\<close> on the new
  set and publishes it through \<^verbatim>\<open>applyLayeredZones()\<close>.
\<close>

theorem findBest_empty_sets:
  assumes "tree s = Some t" and "scanned c t out s = (out', new)"
  shows "(elems new = [] \<and> elems (layeredZones s) = [] \<longrightarrow>
            findBestZoneAndMaybeContainingEntities c out s
              = Inr (False, out', [FindEntities (avatarPosition s) (round32 (1 / 100))],
                     s\<lparr>layeredZones := new\<rparr>))
       \<and> ((elems new = []) \<noteq> (elems (layeredZones s) = []) \<longrightarrow>
            findBestZoneAndMaybeContainingEntities c out s
              = Inr (True, out',
                     FindEntities (avatarPosition s) (round32 (1 / 100)) # LayeredZones_apply_called
                       # applyLayeredZones (s\<lparr>layeredZones := new\<rparr>),
                     s\<lparr>layeredZones := new\<rparr>))"
  using assms
  by (simp add: findBestZoneAndMaybeContainingEntities_def zonesUnchanged_def Let_def
      oldLayeredZones_of_elems LayeredZones_apply_def)

lemmas renderer_simps =
  example_renderer_def example_tree_def example_constants_def scanned_def foundEntities_of_def
  oldLayeredZones_of_def LayeredZones_move_def LayeredZones_clear_def applyLayeredZones_def
  Let_def

lemma scanned_none:
  "scanned example_constants (example_tree []) None (example_renderer [] lz inside)
     = (None, LayeredZones_clear (snd (LayeredZones_move (Suc (self lz)) lz)))"
  by (simp add: renderer_simps)

lemma scanned_one:
  "scanned example_constants (example_tree [example_zone 2 5 True True]) None
       (example_renderer [example_zone 2 5 True True] (fresh_LayeredZones 0) [])
     = (None, insert_all [example_layer 2 5] (fresh_LayeredZones 0))"
  by (simp add: renderer_simps example_simps)

text \<open>
  An instance of each case: nothing found and no zone before; one visible zone found and
  no zone before; nothing found and one zone before.
\<close>

theorem findBest_empty_sets_witness:
  "findBestZoneAndMaybeContainingEntities example_constants None
      (example_renderer [] (fresh_LayeredZones 0) [])
     = Inr (False, None, [FindEntities (Vec3 0 0 0) (round32 (1 / 100))],
            example_renderer [] (fresh_LayeredZones 0) [])
   \<and> findBestZoneAndMaybeContainingEntities example_constants None
      (example_renderer [example_zone 2 5 True True] (fresh_LayeredZones 0) [])
     = Inr (True, None,
            [FindEntities (Vec3 0 0 0) (round32 (1 / 100)), LayeredZones_apply_called,
             EnqueueTransaction [ResetSelection ''RankedZones'' [2]]],
            example_renderer [example_zone 2 5 True True]
              (insert_all [example_layer 2 5] (fresh_LayeredZones 0)) [])
   \<and> findBestZoneAndMaybeContainingEntities example_constants None
      (example_renderer [] (insert_all [example_layer 2 5] (fresh_LayeredZones 0)) [])
     = Inr (True, None,
            [FindEntities (Vec3 0 0 0) (round32 (1 / 100)), LayeredZones_apply_called,
             EnqueueTransaction [ResetSelection ''RankedZones'' []]],
            example_renderer [] (fresh_LayeredZones 0) [])"
proof -
  let ?S0 = "example_renderer [] (fresh_LayeredZones 0) []"
  let ?S1 = "example_renderer [example_zone 2 5 True True] (fresh_LayeredZones 0) []"
  let ?S2 = "example_renderer [] (insert_all [example_layer 2 5] (fresh_LayeredZones 0)) []"
  have t0: "tree ?S0 = Some (example_tree [])" by (simp add: example_renderer_def)
  have sc0: "scanned example_constants (example_tree []) None ?S0 = (None, fresh_LayeredZones 0)"
    by (simp add: scanned_none) (simp add: renderer_simps fresh_LayeredZones_def set_end_def)
  have e0: "elems (fresh_LayeredZones 0) = [] \<and> elems (layeredZones ?S0) = []"
    by (simp add: example_renderer_def fresh_LayeredZones_def)
  have r0: "findBestZoneAndMaybeContainingEntities example_constants None ?S0
     = Inr (False, None, [FindEntities (Vec3 0 0 0) (round32 (1 / 100))], ?S0)"
    using findBest_empty_sets [OF t0 sc0] e0 by (simp add: example_renderer_def)
  have t1: "tree ?S1 = Some (example_tree [example_zone 2 5 True True])"
    by (simp add: example_renderer_def)
  have e1: "(elems (insert_all [example_layer 2 5] (fresh_LayeredZones 0)) = [])
              \<noteq> (elems (layeredZones ?S1) = [])"
    by (simp add: example_renderer_def example_simps)
  have r1: "findBestZoneAndMaybeContainingEntities example_constants None ?S1
     = Inr (True, None,
            [FindEntities (Vec3 0 0 0) (round32 (1 / 100)), LayeredZones_apply_called,
             EnqueueTransaction [ResetSelection ''RankedZones'' [2]]],
            example_renderer [example_zone 2 5 True True]
              (insert_all [example_layer 2 5] (fresh_LayeredZones 0)) [])"
    using findBest_empty_sets [OF t1 scanned_one] e1
    by (simp add: example_renderer_def applyLayeredZones_def example_simps)
  have t2: "tree ?S2 = Some (example_tree [])" by (simp add: example_renderer_def)
  have sc2: "scanned example_constants (example_tree []) None ?S2 = (None, fresh_LayeredZones 0)"
    by (simp add: scanned_none) (simp add: renderer_simps example_simps)
  have e2: "(elems (fresh_LayeredZones 0) = []) \<noteq> (elems (layeredZones ?S2) = [])"
    by (simp add: example_renderer_def example_simps)
  have r2: "findBestZoneAndMaybeContainingEntities example_constants None ?S2
     = Inr (True, None,
            [FindEntities (Vec3 0 0 0) (round32 (1 / 100)), LayeredZones_apply_called,
             EnqueueTransaction [ResetSelection ''RankedZones'' []]],
            example_renderer [] (fresh_LayeredZones 0) [])"
    using findBest_empty_sets [OF t2 sc2] e2
    by (simp add: example_renderer_def applyLayeredZones_def example_simps)
  from r0 r1 r2 show ?thesis by simp
qed

lemma std_equal_True:
  "std_equal pre ys = Inr True \<Longrightarrow>
     length pre \<le> length ys \<and> list_all2 LayeredZone_eq pre (take (length pre) ys)"
proof (induction pre ys rule: std_equal.induct)
  case (1 ys)
  show ?case by simp
next
  case (2 x xs)
  then show ?case by simp
next
  case (3 x xs y ys)
  then show ?case by (simp split: if_splits)
qed

lemma contains_True:
  assumes "LayeredZones_contains new old = Inr (True, lz)"
  shows "\<exists>pre. range_upto old (skyboxLayer old) = Inr pre \<and> length pre \<le> length (elems new)
           \<and> list_all2 LayeredZone_eq pre (take (length pre) (elems new))
           \<and> std_next new (length pre) = Inr (skyboxLayer lz)
           \<and> lz = new\<lparr>skyboxLayer := skyboxLayer lz\<rparr>"
proof -
  from assms obtain pre where p: "range_upto old (skyboxLayer old) = Inr pre"
    by (cases "range_upto old (skyboxLayer old)") (simp_all add: LayeredZones_contains_def)
  from assms p have e: "std_equal pre (elems new) = Inr True"
    by (cases "std_equal pre (elems new)")
       (auto simp: LayeredZones_contains_def split: if_splits sum.splits)
  from assms p e obtain it where n: "std_next new (length pre) = Inr it"
      and l: "lz = new\<lparr>skyboxLayer := it\<rparr>"
    by (cases "std_next new (length pre)") (simp_all add: LayeredZones_contains_def)
  from l have "skyboxLayer lz = it" by simp
  with p std_equal_True [OF e] n l show ?thesis by auto
qed

text \<open>
  C1, as the code has it: when the old and the new zone set are both empty, or both are
  non-empty and \<^verbatim>\<open>contains()\<close> finds the new set to agree with the old one on the layers
  before the old marker, the call returns \<open>didUpdate = false\<close> and its only effect is
  the tree query: neither \<^verbatim>\<open>apply()\<close> nor the publisher is called. The stored zone set
  after the call is the newly built set, with its marker moved to the offset of the old
  marker; its layers before that offset are those of the old set.
\<close>

theorem findBest_layer_equivalent:
  assumes "tree s = Some t" and "scanned c t out s = (out', new)"
      and "(elems new = [] \<and> elems (oldLayeredZones_of s) = [] \<and> lz = new) \<or>
           (elems new \<noteq> [] \<and> elems (oldLayeredZones_of s) \<noteq> [] \<and>
            LayeredZones_contains new (oldLayeredZones_of s) = Inr (True, lz))"
  shows "findBestZoneAndMaybeContainingEntities c out s
           = Inr (False, out', [FindEntities (avatarPosition s) (round32 (1 / 100))],
                  s\<lparr>layeredZones := lz\<rparr>)
         \<and> lz = new\<lparr>skyboxLayer := skyboxLayer lz\<rparr>
         \<and> (elems new \<noteq> [] \<longrightarrow>
              (\<exists>pre. range_upto (oldLayeredZones_of s) (skyboxLayer (oldLayeredZones_of s)) = Inr pre
                 \<and> list_all2 LayeredZone_eq pre (take (length pre) (elems lz))
                 \<and> std_next new (length pre) = Inr (skyboxLayer lz)))"
proof -
  from assms(3) show ?thesis
  proof
    assume a: "elems new = [] \<and> elems (oldLayeredZones_of s) = [] \<and> lz = new"
    with assms(1,2) show ?thesis
      by (simp add: findBestZoneAndMaybeContainingEntities_def zonesUnchanged_def Let_def)
  next
    assume a: "elems new \<noteq> [] \<and> elems (oldLayeredZones_of s) \<noteq> [] \<and>
            LayeredZones_contains new (oldLayeredZones_of s) = Inr (True, lz)"
    then have c: "LayeredZones_contains new (oldLayeredZones_of s) = Inr (True, lz)" by simp
    from contains_True [OF c] obtain pre where
      p: "range_upto (oldLayeredZones_of s) (skyboxLayer (oldLayeredZones_of s)) = Inr pre"
      and q: "list_all2 LayeredZone_eq pre (take (length pre) (elems new))"
      and n: "std_next new (length pre) = Inr (skyboxLayer lz)"
      and l: "lz = new\<lparr>skyboxLayer := skyboxLayer lz\<rparr>" by blast
    from l have "elems lz = elems new" by (metis LayeredZones.select_convs(2) LayeredZones.surjective LayeredZones.update_convs(4))
    with q have q': "list_all2 LayeredZone_eq pre (take (length pre) (elems lz))" by simp
    have "findBestZoneAndMaybeContainingEntities c out s
           = Inr (False, out', [FindEntities (avatarPosition s) (round32 (1 / 100))],
                  s\<lparr>layeredZones := lz\<rparr>)"
      using assms(1,2) a
      by (simp add: findBestZoneAndMaybeContainingEntities_def zonesUnchanged_def Let_def)
    with l p q' n show ?thesis by blast
  qed
qed


lemma scanned_two:
  "scanned example_constants
       (example_tree [example_zone 2 5 True True, example_zone 3 10 True True]) None
       (example_renderer [example_zone 2 5 True True, example_zone 3 10 True True]
          (insert_all [example_layer 2 5] (fresh_LayeredZones 0)) [])
     = (None, insert_all [example_layer 2 5, example_layer 3 10] (fresh_LayeredZones 0))"
  by (simp add: renderer_simps example_simps)

theorem findBest_layer_equivalent_witness:
  "findBestZoneAndMaybeContainingEntities example_constants None
       (example_renderer [example_zone 2 5 True True, example_zone 3 10 True True]
          (insert_all [example_layer 2 5] (fresh_LayeredZones 0)) [])
     = Inr (False, None, [FindEntities (Vec3 0 0 0) (round32 (1 / 100))],
            example_renderer [example_zone 2 5 True True, example_zone 3 10 True True]
              ((insert_all [example_layer 2 5, example_layer 3 10] (fresh_LayeredZones 0))
                     \<lparr>skyboxLayer := At (example_layer 3 10)\<rparr>) [])
   \<and> findBestZoneAndMaybeContainingEntities example_constants None
      (example_renderer [] (fresh_LayeredZones 0) [])
     = Inr (False, None, [FindEntities (Vec3 0 0 0) (round32 (1 / 100))],
            example_renderer [] (fresh_LayeredZones 0) [])"
proof -
  let ?found = "[example_zone 2 5 True True, example_zone 3 10 True True]"
  let ?S = "example_renderer ?found (insert_all [example_layer 2 5] (fresh_LayeredZones 0)) []"
  let ?new = "insert_all [example_layer 2 5, example_layer 3 10] (fresh_LayeredZones 0)"
  let ?lz = "?new\<lparr>skyboxLayer := At (example_layer 3 10)\<rparr>"
  have t: "tree ?S = Some (example_tree ?found)" by (simp add: example_renderer_def)
  have h: "(elems ?new = [] \<and> elems (oldLayeredZones_of ?S) = [] \<and> ?lz = ?new) \<or>
           (elems ?new \<noteq> [] \<and> elems (oldLayeredZones_of ?S) \<noteq> [] \<and>
            LayeredZones_contains ?new (oldLayeredZones_of ?S) = Inr (True, ?lz))"
    by (simp add: LayeredZones_contains_def range_upto_def std_next_def renderer_simps
        example_simps)
  have r: "findBestZoneAndMaybeContainingEntities example_constants None ?S
     = Inr (False, None, [FindEntities (Vec3 0 0 0) (round32 (1 / 100))],
            example_renderer ?found ?lz [])"
    using findBest_layer_equivalent [OF t scanned_two h] by (simp add: example_renderer_def)
  let ?S0 = "example_renderer [] (fresh_LayeredZones 0) []"
  have t0: "tree ?S0 = Some (example_tree [])" by (simp add: example_renderer_def)
  have sc0: "scanned example_constants (example_tree []) None ?S0 = (None, fresh_LayeredZones 0)"
    by (simp add: scanned_none) (simp add: renderer_simps fresh_LayeredZones_def set_end_def)
  have h0: "(elems (fresh_LayeredZones 0) = [] \<and> elems (oldLayeredZones_of ?S0) = []
              \<and> fresh_LayeredZones 0 = fresh_LayeredZones 0) \<or>
           (elems (fresh_LayeredZones 0) \<noteq> [] \<and> elems (oldLayeredZones_of ?S0) \<noteq> [] \<and>
            LayeredZones_contains (fresh_LayeredZones 0) (oldLayeredZones_of ?S0)
              = Inr (True, fresh_LayeredZones 0))"
    by (simp add: renderer_simps fresh_LayeredZones_def)
  have r0: "findBestZoneAndMaybeContainingEntities example_constants None ?S0
     = Inr (False, None, [FindEntities (Vec3 0 0 0) (round32 (1 / 100))], ?S0)"
    using findBest_layer_equivalent [OF t0 sc0 h0] by (simp add: example_renderer_def)
  from r r0 show ?thesis by simp
qed

text \<open>
  C1 as stated fails: with one zone stored and a second, larger zone found beside it,
  \<^verbatim>\<open>contains()\<close> holds and no update is reported, yet the stored set after the call has
  two layers, not the one layer of the previous cycle.
\<close>

theorem findBest_keeps_previous_set_counterexample:
  "elems (layeredZones
      (example_renderer [example_zone 2 5 True True, example_zone 3 10 True True]
          (insert_all [example_layer 2 5] (fresh_LayeredZones 0)) []))
     = [example_layer 2 5]
   \<and> LayeredZones_contains
       (insert_all [example_layer 2 5, example_layer 3 10] (fresh_LayeredZones 0))
       (oldLayeredZones_of
          (example_renderer [example_zone 2 5 True True, example_zone 3 10 True True]
             (insert_all [example_layer 2 5] (fresh_LayeredZones 0)) []))
     = Inr (True, (insert_all [example_layer 2 5, example_layer 3 10] (fresh_LayeredZones 0))
                     \<lparr>skyboxLayer := At (example_layer 3 10)\<rparr>)
   \<and> findBestZoneAndMaybeContainingEntities example_constants None
       (example_renderer [example_zone 2 5 True True, example_zone 3 10 True True]
          (insert_all [example_layer 2 5] (fresh_LayeredZones 0)) [])
     = Inr (False, None, [FindEntities (Vec3 0 0 0) (round32 (1 / 100))],
            example_renderer [example_zone 2 5 True True, example_zone 3 10 True True]
              ((insert_all [example_layer 2 5, example_layer 3 10] (fresh_LayeredZones 0))
                     \<lparr>skyboxLayer := At (example_layer 3 10)\<rparr>) [])
   \<and> elems ((insert_all [example_layer 2 5, example_layer 3 10] (fresh_LayeredZones 0))
                     \<lparr>skyboxLayer := At (example_layer 3 10)\<rparr>)
     = [example_layer 2 5, example_layer 3 10]"
  by (simp add: findBestZoneAndMaybeContainingEntities_def zonesUnchanged_def
      LayeredZones_contains_def range_upto_def std_next_def renderer_simps example_simps)




subsection \<open>Forcing a recheck and leaving all entities\<close>

lemma leave_events_set:
  "set (concat (map (leave_events s) ids))
     = Emit_leaveEntity ` set ids \<union>
       (if entitiesScriptEngine s \<noteq> None
        then (\<lambda>i. CallEntityScriptMethod i ''leaveEntity'') ` set ids else {})"
  by (induction ids) (auto simp: leave_events_def)






subsection \<open>Enter and leave events\<close>

lemma enter_events_set:
  "set (concat (map (enter_events s) ids))
     = Emit_enterEntity ` set ids \<union>
       (if entitiesScriptEngine s \<noteq> None
        then (\<lambda>i. CallEntityScriptMethod i ''enterEntity'') ` set ids else {})"
  by (induction ids) (auto simp: enter_events_def)

lemma concat_map_if:
  "concat (map (\<lambda>x. if P x then f x else []) xs) = concat (map f (filter P xs))"
  by (induction xs) simp_all

lemma findBest_unfold:
  "tree s = Some t \<Longrightarrow> scanned c t out s = (o1, new)
     \<Longrightarrow> zonesUnchanged new (oldLayeredZones_of s) = Inr (u, lz)
     \<Longrightarrow> findBestZoneAndMaybeContainingEntities c out s
         = (if u then Inr (False, o1, [FindEntities (avatarPosition s) (round32 (1 / 100))],
                           s\<lparr>layeredZones := lz\<rparr>)
            else Inr (True, o1,
                      FindEntities (avatarPosition s) (round32 (1 / 100))
                        # LayeredZones_apply lz @ applyLayeredZones (s\<lparr>layeredZones := lz\<rparr>),
                      s\<lparr>layeredZones := lz\<rparr>))"
  by (simp add: findBestZoneAndMaybeContainingEntities_def Let_def)

lemma findBest_fault:
  "tree s = Some t \<Longrightarrow> zonesUnchanged (snd (scanned c t out s)) (oldLayeredZones_of s) = Inl e
     \<Longrightarrow> findBestZoneAndMaybeContainingEntities c out s = Inl e"
  by (cases "scanned c t out s") (simp add: findBestZoneAndMaybeContainingEntities_def Let_def)

lemma scanned_ids:
  "fst (scanned c t out s)
     = map_option (\<lambda>v. v @ containingIDs (avatarPosition s)
                            (findEntities t (avatarPosition s) (round32 (1 / 100)))) out"
  by (simp add: scanned_def scanEntities_ids foundEntities_of_def)

lemma findBest_result:
  assumes "findBestZoneAndMaybeContainingEntities c out s = Inr (d, out', evs, s')"
      and "tree s = Some t"
  shows "evs \<noteq> [] \<and> hd evs = FindEntities (avatarPosition s) (round32 (1 / 100))
           \<and> (\<forall>e\<in>set evs. \<not> is_leave e \<and> \<not> is_enter e)
           \<and> s' = s\<lparr>layeredZones := layeredZones s'\<rparr>
           \<and> out' = map_option (\<lambda>v. v @ containingIDs (avatarPosition s)
                                       (findEntities t (avatarPosition s) (round32 (1 / 100)))) out"
proof -
  let ?o1 = "fst (scanned c t out s)" and ?new = "snd (scanned c t out s)"
  have sc: "scanned c t out s = (?o1, ?new)" by simp
  show ?thesis
  proof (cases "zonesUnchanged ?new (oldLayeredZones_of s)")
    case (Inl e)
    from findBest_fault [OF assms(2) Inl] assms(1) show ?thesis by simp
  next
    case (Inr r)
    obtain u lz where r: "r = (u, lz)" by (cases r)
    note eq = findBest_unfold [OF assms(2) sc Inr [unfolded r]]
    show ?thesis
    proof (cases u)
      case True
      with eq assms(1) have "evs = [FindEntities (avatarPosition s) (round32 (1 / 100))]"
        and "s' = s\<lparr>layeredZones := lz\<rparr>" and "out' = ?o1" by simp_all
      then show ?thesis unfolding scanned_ids by simp
    next
      case False
      with eq assms(1) have
        e: "evs = FindEntities (avatarPosition s) (round32 (1 / 100))
                # (LayeredZones_apply lz @ applyLayeredZones (s\<lparr>layeredZones := lz\<rparr>))"
        and s': "s' = s\<lparr>layeredZones := lz\<rparr>" and o: "out' = ?o1" by simp_all
      have "\<forall>e\<in>set (LayeredZones_apply lz @ applyLayeredZones (s\<lparr>layeredZones := lz\<rparr>)).
            \<not> is_leave e \<and> \<not> is_enter e"
        by (simp add: LayeredZones_apply_def applyLayeredZones_def)
      with e s' o show ?thesis unfolding scanned_ids by simp
    qed
  qed
qed

lemma recheck_result:
  assumes "recheck c now s = Inr (d, evs, s')" and "tree s = Some t"
      and "vp = getAvatarPosition (viewState s)"
      and "N = containingIDs vp (findEntities t vp (round32 (1 / 100)))"
      and "P = currentEntitiesInside s"
  shows "(\<exists>pre. evs = pre
                    @ concat (map (leave_events s) (filter (\<lambda>e. e \<notin> set N) P))
                    @ concat (map (enter_events s) (filter (\<lambda>e. e \<notin> set P) N))
           \<and> pre \<noteq> [] \<and> hd pre = FindEntities vp (round32 (1 / 100))
           \<and> (\<forall>e\<in>set pre. \<not> is_leave e \<and> \<not> is_enter e))
       \<and> s' = s\<lparr>avatarPosition := vp, lastZoneCheck := now, layeredZones := layeredZones s',
                 currentEntitiesInside := N\<rparr>"
proof -
  let ?s1 = "s\<lparr>avatarPosition := vp, lastZoneCheck := now\<rparr>"
  have t1: "tree ?s1 = Some t" using assms(2) by simp
  have unf: "recheck c now s =
     (case findBestZoneAndMaybeContainingEntities c (Some []) ?s1 of
           Inl e \<Rightarrow> Inl e
         | Inr (didUpdate, out, evs, s2) \<Rightarrow>
             (let entitiesContainingAvatar = (case out of Some v \<Rightarrow> v | None \<Rightarrow> [])
              in Inr (didUpdate,
                      evs @ concat (map (leave_events s2)
                                     (filter (\<lambda>e. e \<notin> set entitiesContainingAvatar)
                                        (currentEntitiesInside s2)))
                          @ concat (map (enter_events s2)
                                     (filter (\<lambda>e. e \<notin> set (currentEntitiesInside s2))
                                        entitiesContainingAvatar)),
                      s2\<lparr>currentEntitiesInside := entitiesContainingAvatar\<rparr>)))"
    unfolding recheck_def assms(3) Let_def concat_map_if ..
  show ?thesis
  proof (cases "findBestZoneAndMaybeContainingEntities c (Some []) ?s1")
    case (Inl e)
    with unf assms(1) show ?thesis by simp
  next
    case (Inr r)
    obtain d1 o1 e1 s2 where r: "r = (d1, o1, e1, s2)" by (cases r)
    note f = Inr [unfolded r]
    from findBest_result [OF f t1] assms(4) have
      e1: "e1 \<noteq> []" "hd e1 = FindEntities vp (round32 (1 / 100))"
      and pre: "\<forall>e\<in>set e1. \<not> is_leave e \<and> \<not> is_enter e"
      and s2: "s2 = ?s1\<lparr>layeredZones := layeredZones s2\<rparr>"
      and o1: "o1 = Some N" by simp_all
    have eng: "entitiesScriptEngine s2 = entitiesScriptEngine s"
      by (subst s2) simp
    have le: "leave_events s2 = leave_events s" and ee: "enter_events s2 = enter_events s"
      using eng by (simp_all add: leave_events_def enter_events_def fun_eq_iff)
    have ci: "currentEntitiesInside s2 = P"
      by (subst s2) (simp add: assms(5))
    from unf assms(1) f o1 have
      ev: "evs = e1 @ concat (map (leave_events s2)
                                     (filter (\<lambda>e. e \<notin> set N) (currentEntitiesInside s2)))
                          @ concat (map (enter_events s2)
                                     (filter (\<lambda>e. e \<notin> set (currentEntitiesInside s2)) N))"
      and st: "s' = s2\<lparr>currentEntitiesInside := N\<rparr>"
      by simp_all
    from ev have ev': "evs = e1
                    @ concat (map (leave_events s) (filter (\<lambda>e. e \<notin> set N) P))
                    @ concat (map (enter_events s) (filter (\<lambda>e. e \<notin> set P) N))"
      unfolding le ee ci .
    have lz: "layeredZones s' = layeredZones s2" unfolding st by simp
    have st': "s' = s\<lparr>avatarPosition := vp, lastZoneCheck := now, layeredZones := layeredZones s',
                     currentEntitiesInside := N\<rparr>"
      unfolding lz by (subst st, subst s2) simp
    from ev' e1 pre have "\<exists>pre. evs = pre
                    @ concat (map (leave_events s) (filter (\<lambda>e. e \<notin> set N) P))
                    @ concat (map (enter_events s) (filter (\<lambda>e. e \<notin> set P) N))
           \<and> pre \<noteq> [] \<and> hd pre = FindEntities vp (round32 (1 / 100))
           \<and> (\<forall>e\<in>set pre. \<not> is_leave e \<and> \<not> is_enter e)"
      by (intro exI [of _ e1]) simp
    then show ?thesis using st' by (rule conjI)
  qed
qed

lemma leave_before_enter:
  assumes "\<forall>e\<in>set A. \<not> is_leave e \<and> \<not> is_enter e"
      and "\<forall>e\<in>set L. \<not> is_enter e" and "\<forall>e\<in>set E. \<not> is_leave e"
      and "i < length (A @ L @ E)" and "j < length (A @ L @ E)"
      and "is_leave ((A @ L @ E) ! i)" and "is_enter ((A @ L @ E) ! j)"
  shows "i < j"
proof -
  have i1: "\<not> i < length A"
  proof
    assume "i < length A"
    then have "(A @ L @ E) ! i \<in> set A" by (simp add: nth_append)
    with assms(1,6) show False by blast
  qed
  have i2: "i < length A + length L"
  proof (rule ccontr)
    assume n: "\<not> i < length A + length L"
    with assms(4) have "(A @ L @ E) ! i = E ! (i - length A - length L)"
      and "i - length A - length L < length E"
      by (auto simp: nth_append)
    then have "(A @ L @ E) ! i \<in> set E" by simp
    with assms(3,6) show False by blast
  qed
  have j1: "\<not> j < length A + length L"
  proof
    assume lt: "j < length A + length L"
    show False
    proof (cases "j < length A")
      case True
      then have "(A @ L @ E) ! j \<in> set A" by (simp add: nth_append)
      with assms(1,7) show False by blast
    next
      case False
      with lt have "(A @ L @ E) ! j = L ! (j - length A)" and "j - length A < length L"
        by (auto simp: nth_append)
      then have "(A @ L @ E) ! j \<in> set L" by simp
      with assms(2,7) show False by blast
    qed
  qed
  from i2 j1 show ?thesis by simp
qed

lemma leave_events_kind:
  "\<forall>e\<in>set (concat (map (leave_events s) ids)). is_leave e \<and> \<not> is_enter e"
  unfolding leave_events_set by auto

lemma enter_events_kind:
  "\<forall>e\<in>set (concat (map (enter_events s) ids)). is_enter e \<and> \<not> is_leave e"
  unfolding enter_events_set by auto

lemma in_leave_events:
  "Emit_leaveEntity i \<in> set (concat (map (leave_events s) ids)) \<longleftrightarrow> i \<in> set ids"
  "CallEntityScriptMethod i ''leaveEntity'' \<in> set (concat (map (leave_events s) ids))
     \<longleftrightarrow> entitiesScriptEngine s \<noteq> None \<and> i \<in> set ids"
  "Emit_enterEntity i \<notin> set (concat (map (leave_events s) ids))"
  "CallEntityScriptMethod i ''enterEntity'' \<notin> set (concat (map (leave_events s) ids))"
  unfolding leave_events_set by auto

lemma in_enter_events:
  "Emit_enterEntity i \<in> set (concat (map (enter_events s) ids)) \<longleftrightarrow> i \<in> set ids"
  "CallEntityScriptMethod i ''enterEntity'' \<in> set (concat (map (enter_events s) ids))
     \<longleftrightarrow> entitiesScriptEngine s \<noteq> None \<and> i \<in> set ids"
  "Emit_leaveEntity i \<notin> set (concat (map (enter_events s) ids))"
  "CallEntityScriptMethod i ''leaveEntity'' \<notin> set (concat (map (enter_events s) ids))"
  unfolding enter_events_set by auto


lemma diff_events:
  assumes "evs = pre @ concat (map (leave_events s) (filter (\<lambda>e. e \<notin> set N) P))
                     @ concat (map (enter_events s) (filter (\<lambda>e. e \<notin> set P) N))"
      and "\<forall>e\<in>set pre. \<not> is_leave e \<and> \<not> is_enter e"
  shows "{i. Emit_leaveEntity i \<in> set evs} = set P - set N"
    and "{i. Emit_enterEntity i \<in> set evs} = set N - set P"
    and "{i. CallEntityScriptMethod i ''leaveEntity'' \<in> set evs}
           = (if entitiesScriptEngine s \<noteq> None then set P - set N else {})"
    and "{i. CallEntityScriptMethod i ''enterEntity'' \<in> set evs}
           = (if entitiesScriptEngine s \<noteq> None then set N - set P else {})"
    and "\<forall>i j. i < length evs \<and> j < length evs \<and> is_leave (evs ! i) \<and> is_enter (evs ! j)
           \<longrightarrow> i < j"
    and "filter (\<lambda>e. is_leave e \<or> is_enter e) evs
           = concat (map (leave_events s) (filter (\<lambda>e. e \<notin> set N) P))
             @ concat (map (enter_events s) (filter (\<lambda>e. e \<notin> set P) N))"
proof -
  let ?L = "concat (map (leave_events s) (filter (\<lambda>e. e \<notin> set N) P))"
  let ?E = "concat (map (enter_events s) (filter (\<lambda>e. e \<notin> set P) N))"
  have f1: "filter (\<lambda>e. is_leave e \<or> is_enter e) pre = []"
    using assms(2) by (simp add: filter_empty_conv)
  have f2: "filter (\<lambda>e. is_leave e \<or> is_enter e) ?L = ?L"
    using leave_events_kind [of s "filter (\<lambda>e. e \<notin> set N) P"] by (simp add: filter_id_conv)
  have f3: "filter (\<lambda>e. is_leave e \<or> is_enter e) ?E = ?E"
    using enter_events_kind [of s "filter (\<lambda>e. e \<notin> set P) N"] by (simp add: filter_id_conv)
  show "filter (\<lambda>e. is_leave e \<or> is_enter e) evs = ?L @ ?E"
    unfolding assms(1) filter_append f1 f2 f3 by simp
  have mem: "e \<in> set evs \<longleftrightarrow> e \<in> set pre \<or> e \<in> set ?L \<or> e \<in> set ?E" for e
    unfolding assms(1) by (simp only: set_append Un_iff)
  have pl: "Emit_leaveEntity i \<notin> set pre" "CallEntityScriptMethod i ''leaveEntity'' \<notin> set pre"
    "Emit_enterEntity i \<notin> set pre" "CallEntityScriptMethod i ''enterEntity'' \<notin> set pre" for i
  proof -
    show "Emit_leaveEntity i \<notin> set pre" using assms(2) is_leave.simps(1) by blast
    show "CallEntityScriptMethod i ''leaveEntity'' \<notin> set pre"
      using assms(2) is_leave.simps(2) by blast
    show "Emit_enterEntity i \<notin> set pre" using assms(2) is_enter.simps(1) by blast
    show "CallEntityScriptMethod i ''enterEntity'' \<notin> set pre"
      using assms(2) is_enter.simps(2) by blast
  qed
  have a: "Emit_leaveEntity i \<in> set evs \<longleftrightarrow> i \<in> set P - set N" for i
    unfolding mem by (simp only: pl in_leave_events in_enter_events) simp
  have b: "Emit_enterEntity i \<in> set evs \<longleftrightarrow> i \<in> set N - set P" for i
    unfolding mem by (simp only: pl in_leave_events in_enter_events) simp
  have c: "CallEntityScriptMethod i ''leaveEntity'' \<in> set evs
             \<longleftrightarrow> entitiesScriptEngine s \<noteq> None \<and> i \<in> set P - set N" for i
    unfolding mem by (simp only: pl in_leave_events in_enter_events) simp
  have d: "CallEntityScriptMethod i ''enterEntity'' \<in> set evs
             \<longleftrightarrow> entitiesScriptEngine s \<noteq> None \<and> i \<in> set N - set P" for i
    unfolding mem by (simp only: pl in_leave_events in_enter_events) simp
  show "{i. Emit_leaveEntity i \<in> set evs} = set P - set N"
    by (rule set_eqI) (simp only: mem_Collect_eq a)
  show "{i. Emit_enterEntity i \<in> set evs} = set N - set P"
    by (rule set_eqI) (simp only: mem_Collect_eq b)
  show "{i. CallEntityScriptMethod i ''leaveEntity'' \<in> set evs}
           = (if entitiesScriptEngine s \<noteq> None then set P - set N else {})"
    by (rule set_eqI) (simp only: mem_Collect_eq c, simp)
  show "{i. CallEntityScriptMethod i ''enterEntity'' \<in> set evs}
           = (if entitiesScriptEngine s \<noteq> None then set N - set P else {})"
    by (rule set_eqI) (simp only: mem_Collect_eq d, simp)
  have kl: "\<forall>e\<in>set ?L. \<not> is_enter e" using leave_events_kind by blast
  have ke: "\<forall>e\<in>set ?E. \<not> is_leave e" using enter_events_kind by blast
  show "\<forall>i j. i < length evs \<and> j < length evs \<and> is_leave (evs ! i) \<and> is_enter (evs ! j)
           \<longrightarrow> i < j"
    unfolding assms(1)
    using leave_before_enter [OF assms(2) kl ke] by blast
qed


lemma check_is_recheck:
  "rechecks c now s \<Longrightarrow> checkEnterLeaveEntities c now s = recheck c now s"
  by (simp add: checkEnterLeaveEntities_def rechecks_def)

lemma check_is_skipped:
  "\<not> rechecks c now s \<Longrightarrow> checkEnterLeaveEntities c now s = Inr (False, [], s)"
  by (auto simp: checkEnterLeaveEntities_def rechecks_def)

text \<open>
  When a call of \<^verbatim>\<open>checkEnterLeaveEntities()\<close> that performs a recheck returns, with \<open>P\<close> the
  tracked containment set before and \<open>N\<close> the ids the resolver collects, the ids for
  which \<^verbatim>\<open>leaveEntity\<close> is emitted are exactly those of \<open>P\<close> that are not in \<open>N\<close>, the
  ids for which \<^verbatim>\<open>enterEntity\<close> is emitted are exactly those of \<open>N\<close> that are not in
  \<open>P\<close> (so an id in both gets neither), the script methods are called for the same ids
  when an engine is attached and for none otherwise, every leave effect comes before
  every enter effect (the leave and enter effects of the call are, in this order, those
  of the ids of \<open>P\<close> not in \<open>N\<close> and then those of the ids of \<open>N\<close> not in \<open>P\<close>, once
  for each occurrence), and the tracked set afterwards is \<open>N\<close>.
\<close>

lemma recheck_fires_leave_then_enter:
  assumes "tree s = Some t" and "\<not> shuttingDown s"
      and "movedEnough c s \<or> enoughTimeElapsed c now s"
      and "checkEnterLeaveEntities c now s = Inr (didUpdate, evs, s')"
      and "P = currentEntitiesInside s"
      and "N = containingIDs (getAvatarPosition (viewState s))
                 (findEntities t (getAvatarPosition (viewState s)) (round32 (1 / 100)))"
  shows "{i. Emit_leaveEntity i \<in> set evs} = set P - set N
       \<and> {i. Emit_enterEntity i \<in> set evs} = set N - set P
       \<and> {i. CallEntityScriptMethod i ''leaveEntity'' \<in> set evs}
           = (if entitiesScriptEngine s \<noteq> None then set P - set N else {})
       \<and> {i. CallEntityScriptMethod i ''enterEntity'' \<in> set evs}
           = (if entitiesScriptEngine s \<noteq> None then set N - set P else {})
       \<and> (\<forall>i j. i < length evs \<and> j < length evs \<and> is_leave (evs ! i) \<and> is_enter (evs ! j)
             \<longrightarrow> i < j)
       \<and> filter (\<lambda>e. is_leave e \<or> is_enter e) evs
           = concat (map (leave_events s) (filter (\<lambda>e. e \<notin> set N) P))
             @ concat (map (enter_events s) (filter (\<lambda>e. e \<notin> set P) N))
       \<and> currentEntitiesInside s' = N"
proof -
  have "rechecks c now s" using assms(1-3) by (simp add: rechecks_def)
  with assms(4) have r: "recheck c now s = Inr (didUpdate, evs, s')"
    by (simp add: check_is_recheck)
  note rr = recheck_result [OF r assms(1) refl assms(6) assms(5)]
  from rr [THEN conjunct1] obtain pre where
    e: "evs = pre @ concat (map (leave_events s) (filter (\<lambda>e. e \<notin> set N) P))
                  @ concat (map (enter_events s) (filter (\<lambda>e. e \<notin> set P) N))"
    and p: "\<forall>e\<in>set pre. \<not> is_leave e \<and> \<not> is_enter e" by blast
  note st = rr [THEN conjunct2]
  have n: "currentEntitiesInside s' = N" by (subst st) simp
  from diff_events [OF e p] n show ?thesis by (intro conjI)
qed

text \<open>The transition from \<open>{4, 5}\<close> to \<open>{5, 6}\<close>: one leave, for 4, and one enter, for 6.\<close>

lemmas check_simps =
  checkEnterLeaveEntities_def recheck_def movedEnough_def enoughTimeElapsed_def distance_def round32_zero
  findBestZoneAndMaybeContainingEntities_def zonesUnchanged_def LayeredZones_apply_def
  leave_events_def enter_events_def forceRecheckEntities_def vec3_splat_def

lemma recheck_fires_leave_then_enter_example:
  "checkEnterLeaveEntities example_constants 200000
      (example_renderer [example_zone 5 5 True True, example_zone 6 10 True True]
         (fresh_LayeredZones 0) [4, 5])
     = Inr (True,
            [FindEntities (Vec3 0 0 0) (round32 (1 / 100)), LayeredZones_apply_called,
             EnqueueTransaction [ResetSelection ''RankedZones'' [5, 6]],
             Emit_leaveEntity 4, CallEntityScriptMethod 4 ''leaveEntity'',
             Emit_enterEntity 6, CallEntityScriptMethod 6 ''enterEntity''],
            (example_renderer [example_zone 5 5 True True, example_zone 6 10 True True]
               (insert_all [example_layer 5 5, example_layer 6 10] (fresh_LayeredZones 0))
               [5, 6])\<lparr>lastZoneCheck := 200000\<rparr>)
   \<and> {i. Emit_leaveEntity i \<in> set
            [FindEntities (Vec3 0 0 0) (round32 (1 / 100)), LayeredZones_apply_called,
             EnqueueTransaction [ResetSelection ''RankedZones'' [5, 6]],
             Emit_leaveEntity 4, CallEntityScriptMethod 4 ''leaveEntity'',
             Emit_enterEntity 6, CallEntityScriptMethod 6 ''enterEntity'']} = set [4, 5] - set [5, 6]
   \<and> {i. Emit_enterEntity i \<in> set
            [FindEntities (Vec3 0 0 0) (round32 (1 / 100)), LayeredZones_apply_called,
             EnqueueTransaction [ResetSelection ''RankedZones'' [5, 6]],
             Emit_leaveEntity 4, CallEntityScriptMethod 4 ''leaveEntity'',
             Emit_enterEntity 6, CallEntityScriptMethod 6 ''enterEntity'']} = set [5, 6] - set [4, 5]"
proof -
  let ?found = "[example_zone 5 5 True True, example_zone 6 10 True True]"
  let ?S = "example_renderer ?found (fresh_LayeredZones 0) [4, 5]"
  let ?evs = "[FindEntities (Vec3 0 0 0) (round32 (1 / 100)), LayeredZones_apply_called,
             EnqueueTransaction [ResetSelection ''RankedZones'' [5, 6]],
             Emit_leaveEntity 4, CallEntityScriptMethod 4 ''leaveEntity'',
             Emit_enterEntity 6, CallEntityScriptMethod 6 ''enterEntity'']"
  let ?S' = "(example_renderer ?found
               (insert_all [example_layer 5 5, example_layer 6 10] (fresh_LayeredZones 0))
               [5, 6])\<lparr>lastZoneCheck := 200000\<rparr>"
  have t: "tree ?S = Some (example_tree ?found)" and sd: "\<not> shuttingDown ?S"
    by (simp_all add: example_renderer_def)
  have g: "movedEnough example_constants ?S \<or> enoughTimeElapsed example_constants 200000 ?S"
    by (simp add: enoughTimeElapsed_def example_renderer_def example_constants_def)
  have r: "checkEnterLeaveEntities example_constants 200000 ?S = Inr (True, ?evs, ?S')"
    by (simp add: check_simps renderer_simps example_simps)
  have p: "[4, 5] = currentEntitiesInside ?S" by (simp add: example_renderer_def)
  have n: "[5, 6] = containingIDs (getAvatarPosition (viewState ?S))
                 (findEntities (example_tree ?found) (getAvatarPosition (viewState ?S)) (round32 (1 / 100)))"
    by (simp add: containingIDs_def example_renderer_def example_tree_def example_zone_def)
  from recheck_fires_leave_then_enter [OF t sd g r p n] r show ?thesis by blast
qed


text \<open>
  C3 fails where the resolver does not return. A first recheck finds the zones 2 and 3
  around the avatar, enters both and stores both layers. When the tree then finds zone 2
  only, the next recheck has \<open>P = [2, 3]\<close> and \<open>N = [2]\<close>, so a leave of 3 is due; but
  the comparison of the new zone set with the old one, the three-iterator
  \<^verbatim>\<open>std::equal\<close> of \<^verbatim>\<open>contains()\<close>, reads past the end of the new set before the
  tracked set is looked at: no leave is fired and the tracked set is not replaced.
\<close>

theorem recheck_faults_before_leave:
  "checkEnterLeaveEntities example_constants 200000
      (example_renderer [example_zone 2 5 True True, example_zone 3 10 True True]
         (fresh_LayeredZones 0) [])
     = Inr (True,
            [FindEntities (Vec3 0 0 0) (round32 (1 / 100)), LayeredZones_apply_called,
             EnqueueTransaction [ResetSelection ''RankedZones'' [2, 3]],
             Emit_enterEntity 2, CallEntityScriptMethod 2 ''enterEntity'',
             Emit_enterEntity 3, CallEntityScriptMethod 3 ''enterEntity''],
            (example_renderer [example_zone 2 5 True True, example_zone 3 10 True True]
               (insert_all [example_layer 2 5, example_layer 3 10] (fresh_LayeredZones 0))
               [2, 3])\<lparr>lastZoneCheck := 200000\<rparr>)
   \<and> containingIDs (Vec3 0 0 0)
        (findEntities (example_tree [example_zone 2 5 True True]) (Vec3 0 0 0)
           (round32 (1 / 100)))
     = [2]
   \<and> rechecks example_constants 400000
        ((example_renderer [example_zone 2 5 True True, example_zone 3 10 True True]
            (insert_all [example_layer 2 5, example_layer 3 10] (fresh_LayeredZones 0))
            [2, 3])
           \<lparr>lastZoneCheck := 200000,
             tree := Some (example_tree [example_zone 2 5 True True])\<rparr>)
   \<and> checkEnterLeaveEntities example_constants 400000
        ((example_renderer [example_zone 2 5 True True, example_zone 3 10 True True]
            (insert_all [example_layer 2 5, example_layer 3 10] (fresh_LayeredZones 0))
            [2, 3])
           \<lparr>lastZoneCheck := 200000,
             tree := Some (example_tree [example_zone 2 5 True True])\<rparr>)
     = Inl PastTheEndDereference"
proof -
  have a: "checkEnterLeaveEntities example_constants 200000
      (example_renderer [example_zone 2 5 True True, example_zone 3 10 True True]
         (fresh_LayeredZones 0) [])
     = Inr (True,
            [FindEntities (Vec3 0 0 0) (round32 (1 / 100)), LayeredZones_apply_called,
             EnqueueTransaction [ResetSelection ''RankedZones'' [2, 3]],
             Emit_enterEntity 2, CallEntityScriptMethod 2 ''enterEntity'',
             Emit_enterEntity 3, CallEntityScriptMethod 3 ''enterEntity''],
            (example_renderer [example_zone 2 5 True True, example_zone 3 10 True True]
               (insert_all [example_layer 2 5, example_layer 3 10] (fresh_LayeredZones 0))
               [2, 3])\<lparr>lastZoneCheck := 200000\<rparr>)"
    by (simp add: check_simps renderer_simps example_simps)
  have b: "containingIDs (Vec3 0 0 0)
        (findEntities (example_tree [example_zone 2 5 True True]) (Vec3 0 0 0)
           (round32 (1 / 100)))
     = [2]"
    by (simp add: containingIDs_def example_tree_def example_zone_def)
  have c: "rechecks example_constants 400000
        ((example_renderer [example_zone 2 5 True True, example_zone 3 10 True True]
            (insert_all [example_layer 2 5, example_layer 3 10] (fresh_LayeredZones 0))
            [2, 3])
           \<lparr>lastZoneCheck := 200000,
             tree := Some (example_tree [example_zone 2 5 True True])\<rparr>)"
    by (simp add: rechecks_def enoughTimeElapsed_def example_renderer_def example_constants_def)
  have d: "checkEnterLeaveEntities example_constants 400000
        ((example_renderer [example_zone 2 5 True True, example_zone 3 10 True True]
            (insert_all [example_layer 2 5, example_layer 3 10] (fresh_LayeredZones 0))
            [2, 3])
           \<lparr>lastZoneCheck := 200000,
             tree := Some (example_tree [example_zone 2 5 True True])\<rparr>)
     = Inl PastTheEndDereference"
    by (simp add: check_simps renderer_simps example_simps LayeredZones_contains_def
        range_upto_def)
  from a b c d show ?thesis by (intro conjI)
qed

subsection \<open>The recheck policy\<close>

text \<open>
  At the origin \<^verbatim>\<open>forceRecheckEntities()\<close> does what its comment says: the stored
  position becomes \<open>(32768, 32768, 32768)\<close>, further from the viewpoint than the distance
  threshold.
\<close>

lemma forceRecheck_at_origin:
  "movedEnough example_constants
     (forceRecheckEntities example_constants (example_renderer found lz inside))"
proof -
  have "(32768::real)\<^sup>2 \<le> 3221225472" by simp
  then have "(32768::real) \<le> sqrt 3221225472" by (rule real_le_rsqrt)
  then have "(2::real) powi 15 \<le> sqrt 3221225472" by simp
  then have "(2::real) powi 15 \<le> round32 (sqrt 3221225472)"
    by (rule round32_ge_power) simp
  then have "1 / 1024 < round32 (sqrt 3221225472)" by simp
  then show ?thesis
    by (simp add: movedEnough_def forceRecheckEntities_def distance_def round32_zero
        vec3_splat_def example_renderer_def example_constants_def round32_exact)
qed

text \<open>
  C7 fails where the float sum absorbs \<^verbatim>\<open>TREE_SCALE\<close>. With the viewpoint at
  \<open>2 powi 40 = 1099511627776\<close> on every axis and \<^verbatim>\<open>TREE_SCALE = 32768\<close>,
  \<^verbatim>\<open>forceRecheckEntities()\<close> stores the viewpoint itself, and the call of
  \<^verbatim>\<open>checkEnterLeaveEntities()\<close> that follows, before the time threshold has elapsed, is
  skipped: no tree query and no enter event for the zone 5 that contains the viewpoint.
  The same two calls at the origin perform the recheck.
\<close>

theorem forceRecheck_absorbed_check_skipped:
  "getAvatarPosition (viewState
      (example_renderer_at (Vec3 1099511627776 1099511627776 1099511627776)
         [example_zone 5 5 True True] (fresh_LayeredZones 0) []))
     = Vec3 1099511627776 1099511627776 1099511627776
   \<and> avatarPosition
       (forceRecheckEntities example_constants
          (example_renderer_at (Vec3 1099511627776 1099511627776 1099511627776)
             [example_zone 5 5 True True] (fresh_LayeredZones 0) []))
     = Vec3 1099511627776 1099511627776 1099511627776
   \<and> checkEnterLeaveEntities example_constants 7
       (forceRecheckEntities example_constants
          (example_renderer_at (Vec3 1099511627776 1099511627776 1099511627776)
             [example_zone 5 5 True True] (fresh_LayeredZones 0) []))
     = Inr (False, [],
            example_renderer_at (Vec3 1099511627776 1099511627776 1099511627776)
              [example_zone 5 5 True True] (fresh_LayeredZones 0) [])
   \<and> checkEnterLeaveEntities example_constants 7
        (forceRecheckEntities example_constants
           (example_renderer [example_zone 5 5 True True] (fresh_LayeredZones 0) []))
     = Inr (True,
            [FindEntities (Vec3 0 0 0) (round32 (1 / 100)), LayeredZones_apply_called,
             EnqueueTransaction [ResetSelection ''RankedZones'' [5]],
             Emit_enterEntity 5, CallEntityScriptMethod 5 ''enterEntity''],
            (example_renderer [example_zone 5 5 True True]
               (insert_all [example_layer 5 5] (fresh_LayeredZones 0)) [5])
              \<lparr>lastZoneCheck := 7\<rparr>)"
proof -
  let ?found = "[example_zone 5 5 True True]"
  let ?p = "Vec3 1099511627776 1099511627776 1099511627776"
  let ?F = "example_renderer_at ?p ?found (fresh_LayeredZones 0) []"
  let ?S = "example_renderer ?found (fresh_LayeredZones 0) []"
  have v: "getAvatarPosition (viewState ?F) = ?p"
    by (simp add: example_renderer_at_def)
  have f: "forceRecheckEntities example_constants ?F = ?F"
    by (simp add: forceRecheckEntities_def example_renderer_at_def example_renderer_def
        example_constants_def vec3_splat_def round32_exact round32_absorbed)
  have a: "avatarPosition (forceRecheckEntities example_constants ?F) = ?p"
    unfolding f by (simp add: example_renderer_at_def)
  have "\<not> rechecks example_constants 7 ?F"
    by (simp add: rechecks_def movedEnough_def enoughTimeElapsed_def distance_def round32_zero
        example_renderer_at_def example_renderer_def example_constants_def)
  then have k: "checkEnterLeaveEntities example_constants 7
                  (forceRecheckEntities example_constants ?F) = Inr (False, [], ?F)"
    unfolding f by (rule check_is_skipped)
  have "rechecks example_constants 7 (forceRecheckEntities example_constants ?S)"
    using forceRecheck_at_origin [of ?found "fresh_LayeredZones 0" "[]"]
    by (simp add: rechecks_def forceRecheckEntities_def example_renderer_def)
  then have "checkEnterLeaveEntities example_constants 7
               (forceRecheckEntities example_constants ?S)
             = recheck example_constants 7 (forceRecheckEntities example_constants ?S)"
    by (rule check_is_recheck)
  also have "\<dots> = Inr (True,
            [FindEntities (Vec3 0 0 0) (round32 (1 / 100)), LayeredZones_apply_called,
             EnqueueTransaction [ResetSelection ''RankedZones'' [5]],
             Emit_enterEntity 5, CallEntityScriptMethod 5 ''enterEntity''],
            (example_renderer ?found (insert_all [example_layer 5 5] (fresh_LayeredZones 0)) [5])
              \<lparr>lastZoneCheck := 7\<rparr>)"
    by (simp add: check_simps renderer_simps example_simps)
  finally have o: "checkEnterLeaveEntities example_constants 7
               (forceRecheckEntities example_constants ?S)
     = Inr (True,
            [FindEntities (Vec3 0 0 0) (round32 (1 / 100)), LayeredZones_apply_called,
             EnqueueTransaction [ResetSelection ''RankedZones'' [5]],
             Emit_enterEntity 5, CallEntityScriptMethod 5 ''enterEntity''],
            (example_renderer ?found (insert_all [example_layer 5 5] (fresh_LayeredZones 0)) [5])
              \<lparr>lastZoneCheck := 7\<rparr>)" .
  from v a k o show ?thesis by (intro conjI)
qed

text \<open>
  C8, as the code has it: two calls in succession, the viewpoint of the second within the
  distance threshold of that of the first and at most the time threshold between them.
  When the first call performs a recheck, the second skips the resolver, fires nothing and
  leaves the renderer as it is; so at most one of the two calls performs a recheck. When
  the first call is skipped it changes nothing, and the second call meets the policy
  state of the last recheck.
\<close>

theorem second_check_skipped_after_recheck:
  assumes "checkEnterLeaveEntities c now1 s = Inr (d, evs, s1)"
      and "distance (getAvatarPosition vs2) (getAvatarPosition (viewState s))
             \<le> ZONE_CHECK_DISTANCE c"
      and "now2 - now1 \<le> ZONE_CHECK_INTERVAL c"
  shows "(rechecks c now1 s \<longrightarrow>
            checkEnterLeaveEntities c now2 (s1\<lparr>viewState := vs2\<rparr>)
              = Inr (False, [], s1\<lparr>viewState := vs2\<rparr>))
       \<and> \<not> (rechecks c now1 s \<and> rechecks c now2 (s1\<lparr>viewState := vs2\<rparr>))
       \<and> (\<not> rechecks c now1 s \<longrightarrow> d = False \<and> evs = [] \<and> s1 = s)"
proof -
  have k: "d = False \<and> evs = [] \<and> s1 = s" if "\<not> rechecks c now1 s"
    using that assms(1) by (simp add: check_is_skipped)
  have n: "\<not> rechecks c now2 (s1\<lparr>viewState := vs2\<rparr>)" if rc: "rechecks c now1 s"
  proof -
    from rc obtain t where t: "tree s = Some t" by (auto simp: rechecks_def)
    from rc assms(1) have r: "recheck c now1 s = Inr (d, evs, s1)"
      by (simp add: check_is_recheck)
    note st = recheck_result [OF r t refl refl refl, THEN conjunct2]
    have "avatarPosition s1 = getAvatarPosition (viewState s)" "lastZoneCheck s1 = now1"
      by (subst st, simp)+
    with assms(2,3) show ?thesis
      by (simp add: rechecks_def movedEnough_def enoughTimeElapsed_def not_less)
  qed
  then have "checkEnterLeaveEntities c now2 (s1\<lparr>viewState := vs2\<rparr>)
              = Inr (False, [], s1\<lparr>viewState := vs2\<rparr>)" if "rechecks c now1 s"
    using that by (simp add: check_is_skipped)
  with n k show ?thesis by blast
qed


theorem second_check_skipped_after_recheck_witness:
  "rechecks example_constants 200000
      (example_renderer [example_zone 5 5 True True] (fresh_LayeredZones 0) [])
   \<and> checkEnterLeaveEntities example_constants 200000
      (example_renderer [example_zone 5 5 True True] (fresh_LayeredZones 0) [])
     = Inr (True,
            [FindEntities (Vec3 0 0 0) (round32 (1 / 100)), LayeredZones_apply_called,
             EnqueueTransaction [ResetSelection ''RankedZones'' [5]],
             Emit_enterEntity 5, CallEntityScriptMethod 5 ''enterEntity''],
            (example_renderer [example_zone 5 5 True True]
               (insert_all [example_layer 5 5] (fresh_LayeredZones 0)) [5])
              \<lparr>lastZoneCheck := 200000\<rparr>)
   \<and> checkEnterLeaveEntities example_constants 200001
        ((example_renderer [example_zone 5 5 True True]
               (insert_all [example_layer 5 5] (fresh_LayeredZones 0)) [5])
              \<lparr>lastZoneCheck := 200000,
                viewState := \<lparr>getAvatarPosition = Vec3 0 0 0, getMain3DScene = True\<rparr>\<rparr>)
     = Inr (False, [],
            (example_renderer [example_zone 5 5 True True]
               (insert_all [example_layer 5 5] (fresh_LayeredZones 0)) [5])
              \<lparr>lastZoneCheck := 200000,
                viewState := \<lparr>getAvatarPosition = Vec3 0 0 0, getMain3DScene = True\<rparr>\<rparr>)
   \<and> \<not> rechecks example_constants 7
        (example_renderer [example_zone 5 5 True True] (fresh_LayeredZones 0) [])
   \<and> checkEnterLeaveEntities example_constants 7
        (example_renderer [example_zone 5 5 True True] (fresh_LayeredZones 0) [])
     = Inr (False, [],
            example_renderer [example_zone 5 5 True True] (fresh_LayeredZones 0) [])"
proof -
  let ?found = "[example_zone 5 5 True True]"
  let ?S = "example_renderer ?found (fresh_LayeredZones 0) []"
  let ?S1 = "(example_renderer ?found (insert_all [example_layer 5 5] (fresh_LayeredZones 0)) [5])
              \<lparr>lastZoneCheck := 200000\<rparr>"
  let ?vs = "\<lparr>getAvatarPosition = Vec3 0 0 0, getMain3DScene = True\<rparr>"
  have rc: "rechecks example_constants 200000 ?S"
    by (simp add: rechecks_def enoughTimeElapsed_def example_renderer_def example_constants_def)
  have r: "checkEnterLeaveEntities example_constants 200000 ?S
     = Inr (True,
            [FindEntities (Vec3 0 0 0) (round32 (1 / 100)), LayeredZones_apply_called,
             EnqueueTransaction [ResetSelection ''RankedZones'' [5]],
             Emit_enterEntity 5, CallEntityScriptMethod 5 ''enterEntity''], ?S1)"
    by (simp add: check_simps renderer_simps example_simps)
  have d: "distance (getAvatarPosition ?vs) (getAvatarPosition (viewState ?S))
             \<le> ZONE_CHECK_DISTANCE example_constants"
    by (simp add: distance_def round32_zero example_renderer_def example_constants_def)
  have w: "(200001::64 word) - 200000 \<le> ZONE_CHECK_INTERVAL example_constants"
    by (simp add: example_constants_def)
  from second_check_skipped_after_recheck [OF r d w] rc
  have q: "checkEnterLeaveEntities example_constants 200001 (?S1\<lparr>viewState := ?vs\<rparr>)
              = Inr (False, [], ?S1\<lparr>viewState := ?vs\<rparr>)" by blast
  have nrc: "\<not> rechecks example_constants 7 ?S"
    by (simp add: rechecks_def movedEnough_def enoughTimeElapsed_def distance_def round32_zero
        example_renderer_def example_constants_def)
  have q7: "checkEnterLeaveEntities example_constants 7 ?S = Inr (False, [], ?S)"
    using check_is_skipped [OF nrc] .
  have w7: "(8::64 word) - 7 \<le> ZONE_CHECK_INTERVAL example_constants"
    by (simp add: example_constants_def)
  from second_check_skipped_after_recheck [OF q7 d w7] nrc
  have "False = False \<and> ([]::event list) = [] \<and> ?S = ?S" by blast
  with rc r q nrc q7 show ?thesis by simp
qed

text \<open>
  C8 as stated fails when the first call is itself skipped: the thresholds are measured
  from the last recheck, not from the last call. Here the first call comes exactly one
  interval after the last recheck and is skipped, and the second, a microsecond later
  with the viewpoint unmoved, queries the tree and resets the check time.
\<close>

theorem second_check_rechecks_counterexample:
  "checkEnterLeaveEntities example_constants 100000 (example_renderer [] (fresh_LayeredZones 0) [])
     = Inr (False, [], example_renderer [] (fresh_LayeredZones 0) [])
   \<and> distance (getAvatarPosition (viewState (example_renderer [] (fresh_LayeredZones 0) [])))
               (getAvatarPosition (viewState (example_renderer [] (fresh_LayeredZones 0) [])))
        \<le> ZONE_CHECK_DISTANCE example_constants
   \<and> (100001::64 word) - 100000 < ZONE_CHECK_INTERVAL example_constants
   \<and> checkEnterLeaveEntities example_constants 100001
        (example_renderer [] (fresh_LayeredZones 0) [])
     = Inr (False, [FindEntities (Vec3 0 0 0) (round32 (1 / 100))],
            (example_renderer [] (fresh_LayeredZones 0) [])\<lparr>lastZoneCheck := 100001\<rparr>)"
  by (simp add: check_simps renderer_simps example_simps)



subsection \<open>Updating one zone\<close>

lemma updateZone_state:
  assumes "updateZone i s = Inr (evs, s')"
  shows "s' = s\<lparr>layeredZones := layeredZones s'\<rparr>"
proof -
  from assms obtain t where t: "tree s = Some t"
    by (cases "tree s") (simp_all add: updateZone_def)
  show ?thesis
  proof (cases "findEntityByEntityItemID t i")
    case None
    with assms t show ?thesis by (simp add: updateZone_def)
  next
    case (Some zone)
    show ?thesis
    proof (cases "getType zone = Zone \<and> entity_contains zone (avatarPosition s)")
      case False
      with assms t Some have "s' = s" by (auto simp: updateZone_def)
      then show ?thesis by simp
    next
      case True
      show ?thesis
      proof (cases "LayeredZones_update zone (layeredZones s)")
        case (Inl e)
        with assms t Some True show ?thesis by (simp add: updateZone_def)
      next
        case (Inr r)
        obtain ev lz where "r = (ev, lz)" by (cases r)
        with Inr assms t Some True have "s' = s\<lparr>layeredZones := lz\<rparr>"
          by (simp add: updateZone_def)
        then show ?thesis by simp
      qed
    qed
  qed
qed

text \<open>
  C10, as the code has it: \<^verbatim>\<open>updateZone(id)\<close> leaves the renderer, and so the zone set,
  exactly as it is when the id is not found, the entity is not a zone, or the zone does not
  contain the stored avatar position; in particular a zone of the set that has stopped
  containing the avatar is not erased. Whenever the call returns it changes nothing but
  the zone set, and it changes the zone set only when the id resolves to a zone that
  contains the stored avatar position. A zone that contains the stored avatar position and
  is invisible, and whose layer the mapping holds, has that layer erased from the
  collection and from the mapping.
\<close>

theorem updateZone_changes_only_for_containing_zone:
  "(tree s = Some t \<and>
      (findEntityByEntityItemID t i = None \<or>
       (\<exists>e. findEntityByEntityItemID t i = Some e \<and>
            (getType e \<noteq> Zone \<or> \<not> entity_contains e (avatarPosition s))))
      \<longrightarrow> updateZone i s = Inr ([], s))
   \<and> (updateZone i s = Inr (evs, s') \<longrightarrow>
        s' = s\<lparr>layeredZones := layeredZones s'\<rparr> \<and>
        (layeredZones s' \<noteq> layeredZones s \<longrightarrow>
           (\<exists>t e. tree s = Some t \<and> findEntityByEntityItemID t i = Some e \<and>
                  getType e = Zone \<and> entity_contains e (avatarPosition s))))
   \<and> (tree s = Some t \<and> findEntityByEntityItemID t i = Some z \<and> getType z = Zone \<and>
        entity_contains z (avatarPosition s) \<and> \<not> getVisible z \<and>
        zmap (layeredZones s) (getEntityItemID z) = Some (At n) \<and>
        n \<in> set (elems (layeredZones s))
        \<longrightarrow> updateZone i s
              = Inr ([], s\<lparr>layeredZones := (layeredZones s)
                         \<lparr>elems := remove1 n (elems (layeredZones s)),
                          zmap := (zmap (layeredZones s))(getEntityItemID z := None)\<rparr>\<rparr>))"
proof -
  have c: "updateZone i s
              = Inr ([], s\<lparr>layeredZones := (layeredZones s)
                         \<lparr>elems := remove1 n (elems (layeredZones s)),
                          zmap := (zmap (layeredZones s))(getEntityItemID z := None)\<rparr>\<rparr>)"
    if "tree s = Some t \<and> findEntityByEntityItemID t i = Some z \<and> getType z = Zone \<and>
        entity_contains z (avatarPosition s) \<and> \<not> getVisible z \<and>
        zmap (layeredZones s) (getEntityItemID z) = Some (At n) \<and>
        n \<in> set (elems (layeredZones s))"
    using that
    by (simp add: updateZone_def LayeredZones_update_def deref_def reinsert_def
        LayeredZone_of_def Let_def)
  have a: "updateZone i s = Inr ([], s)"
    if "tree s = Some t0" and "findEntityByEntityItemID t0 i = None \<or>
       (\<exists>e. findEntityByEntityItemID t0 i = Some e \<and>
            (getType e \<noteq> Zone \<or> \<not> entity_contains e (avatarPosition s)))" for t0
    using that by (auto simp: updateZone_def)
  have b: "\<exists>t e. tree s = Some t \<and> findEntityByEntityItemID t i = Some e \<and>
                  getType e = Zone \<and> entity_contains e (avatarPosition s)"
    if r: "updateZone i s = Inr (evs, s')" and ne: "layeredZones s' \<noteq> layeredZones s"
  proof -
    from r obtain t1 where t: "tree s = Some t1"
      by (cases "tree s") (simp_all add: updateZone_def)
    show ?thesis
    proof (rule ccontr)
      assume n: "\<not> ?thesis"
      with t have "findEntityByEntityItemID t1 i = None \<or>
       (\<exists>e. findEntityByEntityItemID t1 i = Some e \<and>
            (getType e \<noteq> Zone \<or> \<not> entity_contains e (avatarPosition s)))"
        by (cases "findEntityByEntityItemID t1 i") auto
      from a [OF t this] r have "s' = s" by simp
      with ne show False by simp
    qed
  qed
  from a b c updateZone_state show ?thesis by blast
qed

lemmas update_simps =
  updateZone_def LayeredZones_update_def reinsert_def deref_def LayeredZones_apply_def

theorem updateZone_changes_only_for_containing_zone_witness:
  "updateZone 5
      (example_renderer [example_zone 5 5 True False]
         (insert_all [example_layer 5 5] (fresh_LayeredZones 0)) [])
     = Inr ([], example_renderer [example_zone 5 5 True False]
                  (insert_all [example_layer 5 5] (fresh_LayeredZones 0)) [])
   \<and> updateZone 9
      (example_renderer [example_zone 5 5 True False]
         (insert_all [example_layer 5 5] (fresh_LayeredZones 0)) [])
     = Inr ([], example_renderer [example_zone 5 5 True False]
                  (insert_all [example_layer 5 5] (fresh_LayeredZones 0)) [])
   \<and> updateZone 5 (example_renderer [example_zone 5 5 True True] (fresh_LayeredZones 0) [])
     = Inr ([LayeredZones_apply_called],
            example_renderer [example_zone 5 5 True True]
              (insert_all [example_layer 5 5] (fresh_LayeredZones 0)) [])
   \<and> (\<exists>t e. tree (example_renderer [example_zone 5 5 True True] (fresh_LayeredZones 0) [])
                = Some t \<and> findEntityByEntityItemID t 5 = Some e \<and> getType e = Zone \<and>
              entity_contains e
                (avatarPosition
                   (example_renderer [example_zone 5 5 True True] (fresh_LayeredZones 0) [])))
   \<and> updateZone 6
        (example_renderer [example_zone 6 5 False True]
           (insert_all [example_layer 6 5] (fresh_LayeredZones 0)) [])
     = Inr ([], example_renderer [example_zone 6 5 False True]
                  ((insert_all [example_layer 6 5] (fresh_LayeredZones 0))
                     \<lparr>elems := [],
                       zmap := (zmap (insert_all [example_layer 6 5] (fresh_LayeredZones 0)))
                                 (6 := None)\<rparr>) [])"
proof -
  let ?lz6 = "insert_all [example_layer 6 5] (fresh_LayeredZones 0)"
  let ?S3 = "example_renderer [example_zone 6 5 False True] ?lz6 []"
  have h5: "tree ?S3 = Some (example_tree [example_zone 6 5 False True]) \<and>
        findEntityByEntityItemID (example_tree [example_zone 6 5 False True]) 6
          = Some (example_zone 6 5 False True) \<and>
        getType (example_zone 6 5 False True) = Zone \<and>
        entity_contains (example_zone 6 5 False True) (avatarPosition ?S3) \<and>
        \<not> getVisible (example_zone 6 5 False True) \<and>
        zmap (layeredZones ?S3) (getEntityItemID (example_zone 6 5 False True))
          = Some (At (example_layer 6 5)) \<and>
        example_layer 6 5 \<in> set (elems (layeredZones ?S3))"
    by (simp add: example_renderer_def example_tree_def example_simps)
  from updateZone_changes_only_for_containing_zone
         [of ?S3 "example_tree [example_zone 6 5 False True]" 6 _ _
             "example_zone 6 5 False True" "example_layer 6 5"] h5
  have "updateZone 6 ?S3
          = Inr ([], ?S3\<lparr>layeredZones := (layeredZones ?S3)
                     \<lparr>elems := remove1 (example_layer 6 5) (elems (layeredZones ?S3)),
                      zmap := (zmap (layeredZones ?S3))
                                (getEntityItemID (example_zone 6 5 False True) := None)\<rparr>\<rparr>)"
    by blast
  then have r5: "updateZone 6 ?S3
     = Inr ([], example_renderer [example_zone 6 5 False True]
                  (?lz6\<lparr>elems := [], zmap := (zmap ?lz6)(6 := None)\<rparr>) [])"
    by (simp add: example_renderer_def example_simps)
  let ?lz = "insert_all [example_layer 5 5] (fresh_LayeredZones 0)"
  let ?S = "example_renderer [example_zone 5 5 True False] ?lz []"
  let ?S2 = "example_renderer [example_zone 5 5 True True] (fresh_LayeredZones 0) []"
  let ?S2' = "example_renderer [example_zone 5 5 True True] ?lz []"
  have h1: "tree ?S = Some (example_tree [example_zone 5 5 True False]) \<and>
      (findEntityByEntityItemID (example_tree [example_zone 5 5 True False]) 5 = None \<or>
       (\<exists>e. findEntityByEntityItemID (example_tree [example_zone 5 5 True False]) 5 = Some e \<and>
            (getType e \<noteq> Zone \<or> \<not> entity_contains e (avatarPosition ?S))))"
    by (simp add: example_renderer_def example_tree_def example_zone_def)
  have h2: "tree ?S = Some (example_tree [example_zone 5 5 True False]) \<and>
      (findEntityByEntityItemID (example_tree [example_zone 5 5 True False]) 9 = None \<or>
       (\<exists>e. findEntityByEntityItemID (example_tree [example_zone 5 5 True False]) 9 = Some e \<and>
            (getType e \<noteq> Zone \<or> \<not> entity_contains e (avatarPosition ?S))))"
    by (simp add: example_renderer_def example_tree_def example_zone_def)
  from updateZone_changes_only_for_containing_zone
         [of ?S "example_tree [example_zone 5 5 True False]" 5] h1
  have r1: "updateZone 5 ?S = Inr ([], ?S)" by blast
  from updateZone_changes_only_for_containing_zone
         [of ?S "example_tree [example_zone 5 5 True False]" 9] h2
  have r2: "updateZone 9 ?S = Inr ([], ?S)" by blast
  have r3: "updateZone 5 ?S2 = Inr ([LayeredZones_apply_called], ?S2')"
    by (simp add: update_simps renderer_simps example_simps)
  have ne: "layeredZones ?S2' \<noteq> layeredZones ?S2"
    by (simp add: example_renderer_def example_simps)
  from updateZone_changes_only_for_containing_zone
         [of ?S2 _ 5 "[LayeredZones_apply_called]" ?S2'] r3 ne
  have r4: "\<exists>t e. tree ?S2 = Some t \<and> findEntityByEntityItemID t 5 = Some e \<and>
              getType e = Zone \<and> entity_contains e (avatarPosition ?S2)" by blast
  from r1 r2 r3 r4 r5 show ?thesis by (intro conjI)
qed

text \<open>
  C10 as stated fails in its last part: a zone of the set that has become invisible and
  still contains the avatar is erased by \<^verbatim>\<open>updateZone(id)\<close>, from the collection and
  from the mapping.
\<close>

theorem updateZone_erases_invisible_counterexample:
  "\<not> getVisible (example_zone 2 5 False True)
   \<and> elems (layeredZones
        (example_renderer [example_zone 2 5 False True, example_zone 3 10 True True]
           (insert_all [example_layer 2 5, example_layer 3 10] (fresh_LayeredZones 0)) []))
     = [example_layer 2 5, example_layer 3 10]
   \<and> updateZone 2
        (example_renderer [example_zone 2 5 False True, example_zone 3 10 True True]
           (insert_all [example_layer 2 5, example_layer 3 10] (fresh_LayeredZones 0)) [])
     = Inr ([],
         example_renderer [example_zone 2 5 False True, example_zone 3 10 True True]
           ((insert_all [example_layer 2 5, example_layer 3 10] (fresh_LayeredZones 0))
              \<lparr>elems := [example_layer 3 10],
                zmap := (zmap (insert_all [example_layer 2 5, example_layer 3 10]
                                 (fresh_LayeredZones 0)))(2 := None)\<rparr>) [])"
  by (simp add: update_simps renderer_simps example_simps)


subsection \<open>The prefix comparison inside the resolver\<close>

text \<open>
  The input of C9 arises in the resolver: a first scan finds two visible zones around the
  avatar and stores both; a second scan finds only the smaller one, and the comparison of
  the new set with the old one reads past the end of the new set.
\<close>

lemma findBest_reads_past_the_end:
  "findBestZoneAndMaybeContainingEntities example_constants None
      (example_renderer [example_zone 2 5 True True, example_zone 3 10 True True]
         (fresh_LayeredZones 0) [])
     = Inr (True, None,
            [FindEntities (Vec3 0 0 0) (round32 (1 / 100)), LayeredZones_apply_called,
             EnqueueTransaction [ResetSelection ''RankedZones'' [2, 3]]],
            example_renderer [example_zone 2 5 True True, example_zone 3 10 True True]
              (insert_all [example_layer 2 5, example_layer 3 10] (fresh_LayeredZones 0)) [])
   \<and> findBestZoneAndMaybeContainingEntities example_constants None
      (example_renderer [example_zone 2 5 True True]
         (insert_all [example_layer 2 5, example_layer 3 10] (fresh_LayeredZones 0)) [])
     = Inl PastTheEndDereference"
  by (simp add: findBestZoneAndMaybeContainingEntities_def zonesUnchanged_def
      LayeredZones_contains_def range_upto_def LayeredZones_apply_def renderer_simps
      example_simps)


end
